theory Spec2Isabelle
  imports Main
begin

section \<open>Glob matching\<close>

text \<open>
  Modelled from the spec: the matcher \<open>fnmatch\<close> that \<open>content_filter.py\<close> imports is
  Python's standard-library function, not part of the sources. The spec fixes masks as
  shell-glob patterns (\<open>*\<close>, \<open>?\<close>, \<open>[...]\<close>) matched against the whole path. The model
  follows the library's two steps on POSIX (where \<open>normcase\<close> is the identity): the
  pattern is translated into a token list, and the token list must match the whole name.
  A bracket expression without a closing bracket is a literal \<open>[\<close>; a leading \<open>!\<close>
  negates the class; \<open>]\<close> directly after the opening bracket (or after \<open>!\<close>) belongs
  to the class; \<open>x-y\<close> inside a class is a range. A reversed range, which the library
  refuses when it compiles the pattern, is the empty range here. Characters are bytes.
\<close>

datatype glob_tok = Star | AnyChar | Lit char | Class bool "char list"

definition skip_char :: "char \<Rightarrow> string \<Rightarrow> string \<times> string" where
  "skip_char c pat =
     (case pat of x # xs \<Rightarrow> if x = c then ([x], xs) else ([], pat) | [] \<Rightarrow> ([], pat))"

definition class_end :: "string \<Rightarrow> (string \<times> string) option" where
  "class_end pat =
     (let (bang, r1) = skip_char (CHR ''!'') pat;
          (brk, r2) = skip_char (CHR '']'') r1;
          mid = takeWhile (\<lambda>c. c \<noteq> CHR '']'') r2;
          r3 = dropWhile (\<lambda>c. c \<noteq> CHR '']'') r2
      in case r3 of [] \<Rightarrow> None | _ # rest \<Rightarrow> Some (bang @ brk @ mid, rest))"

definition class_tok :: "string \<Rightarrow> glob_tok" where
  "class_tok stuff =
     (case stuff of
        c # cs \<Rightarrow> if c = CHR ''!'' then Class True cs else Class False stuff
      | [] \<Rightarrow> Class False [])"

lemma skip_char_length: "length (snd (skip_char c pat)) \<le> length pat"
  by (simp add: skip_char_def split: list.splits)

lemma dropWhile_length: "length (dropWhile P xs) \<le> length xs"
  by (induction xs) auto

lemma class_end_shorter:
  assumes "class_end pat = Some (stuff, rest)"
  shows "length rest < Suc (length pat)"
proof -
  define r1 where "r1 = snd (skip_char (CHR ''!'') pat)"
  define r2 where "r2 = snd (skip_char (CHR '']'') r1)"
  define r3 where "r3 = dropWhile (\<lambda>c. c \<noteq> CHR '']'') r2"
  have "length r3 \<le> length r2"
    unfolding r3_def by (rule dropWhile_length)
  also have "length r2 \<le> length r1"
    unfolding r2_def by (rule skip_char_length)
  also have "length r1 \<le> length pat"
    unfolding r1_def by (rule skip_char_length)
  finally have le: "length r3 \<le> length pat" .
  from assms obtain x where "r3 = x # rest"
    by (auto simp: class_end_def Let_def r1_def r2_def r3_def split: prod.splits list.splits)
  with le show ?thesis by simp
qed

function translate :: "string \<Rightarrow> glob_tok list" where
  "translate [] = []"
| "translate (c # pat) =
     (if c = CHR ''*'' then Star # translate pat
      else if c = CHR ''?'' then AnyChar # translate pat
      else if c = CHR ''['' then
        (case class_end pat of
           None \<Rightarrow> Lit c # translate pat
         | Some (stuff, rest) \<Rightarrow> class_tok stuff # translate rest)
      else Lit c # translate pat)"
  by pat_completeness auto
termination
  by (relation "measure length") (auto dest: class_end_shorter)

fun in_class :: "char list \<Rightarrow> char \<Rightarrow> bool" where
  "in_class (lo # m # hi # rest) c =
     (if m = CHR ''-''
      then ((of_char lo :: nat) \<le> of_char c \<and> (of_char c :: nat) \<le> of_char hi) \<or> in_class rest c
      else c = lo \<or> in_class (m # hi # rest) c)"
| "in_class (x # rest) c = (c = x \<or> in_class rest c)"
| "in_class [] c = False"

fun rmatch :: "glob_tok list \<Rightarrow> string \<Rightarrow> bool" where
  "rmatch [] [] = True"
| "rmatch [] (x # xs) = False"
| "rmatch (Star # ts) [] = rmatch ts []"
| "rmatch (Star # ts) (x # xs) = (rmatch ts (x # xs) \<or> rmatch (Star # ts) xs)"
| "rmatch (AnyChar # ts) [] = False"
| "rmatch (AnyChar # ts) (x # xs) = rmatch ts xs"
| "rmatch (Lit c # ts) [] = False"
| "rmatch (Lit c # ts) (x # xs) = (x = c \<and> rmatch ts xs)"
| "rmatch (Class neg body # ts) [] = False"
| "rmatch (Class neg body # ts) (x # xs) = ((in_class body x \<noteq> neg) \<and> rmatch ts xs)"

definition fnmatch :: "string \<Rightarrow> string \<Rightarrow> bool" where
  "fnmatch name pat = rmatch (translate pat) name"

section \<open>The content filter (\<open>plugins/filter/content_filter.py\<close>)\<close>

text \<open>
  An entry is a dictionary of the host program. The model keeps the keys the two plugins
  read: the title (every entry of a task has one), the generic string fields, the parsed
  torrent (its file list as pairs of path and name), the content file list, and the
  acceptance state that \<open>entry.reject(reason, remember=True)\<close> changes.
\<close>

datatype entry_state = Accepted | Rejected string bool

record entry =
  title :: string
  entry_fields :: "string \<rightharpoonup> string"
  torrent :: "(string \<times> string) list option"
  content_files :: "string list option"
  state :: entry_state

text \<open>
  The plugin's configuration: each mask key is absent, a text or a list of texts;
  \<open>get_config\<close> wraps a text into a one-element list.
\<close>

datatype text_or_list = Text string | TextList "string list"

record content_filter_config =
  raw_require :: "text_or_list option"
  raw_require_all :: "text_or_list option"
  raw_reject :: "text_or_list option"
  raw_strict :: "bool option"

record filter_rules =
  require :: "string list option"
  require_all :: "string list option"
  reject :: "string list option"
  strict :: "bool option"

definition as_list :: "text_or_list \<Rightarrow> string list" where
  "as_list v = (case v of Text t \<Rightarrow> [t] | TextList ts \<Rightarrow> ts)"

definition get_config :: "content_filter_config \<Rightarrow> filter_rules" where
  "get_config config =
     \<lparr>require = map_option as_list (raw_require config),
      require_all = map_option as_list (raw_require_all config),
      reject = map_option as_list (raw_reject config),
      strict = raw_strict config\<rparr>"

text \<open>Truth values of Python for the values the filter tests.\<close>

definition truthy_list :: "'a list option \<Rightarrow> bool" where
  "truthy_list v = (case v of None \<Rightarrow> False | Some xs \<Rightarrow> xs \<noteq> [])"

definition truthy_bool :: "bool option \<Rightarrow> bool" where
  "truthy_bool v = (case v of None \<Rightarrow> False | Some b \<Rightarrow> b)"

definition truthy_mask :: "string option \<Rightarrow> bool" where
  \<comment> \<open>the result of \<open>matching_mask\<close>: \<open>False\<close> (here \<open>None\<close>) or the mask, a string\<close>
  "truthy_mask v = (case v of None \<Rightarrow> False | Some m \<Rightarrow> m \<noteq> [])"

definition format_mask :: "string option \<Rightarrow> string" where
  \<comment> \<open>the conversion \<open>%s\<close> of the result of \<open>matching_mask\<close>\<close>
  "format_mask v = (case v of None \<Rightarrow> ''False'' | Some m \<Rightarrow> m)"

definition masks_of :: "string list option \<Rightarrow> string list" where
  \<comment> \<open>\<open>config[key]\<close>, read only after \<open>config.get(key)\<close> was true\<close>
  "masks_of v = (case v of None \<Rightarrow> [] | Some ms \<Rightarrow> ms)"

text \<open>The inner loop of \<open>matching_mask\<close>: the masks, in order, against one file.\<close>

fun first_mask :: "string \<Rightarrow> string list \<Rightarrow> string option" where
  "first_mask file [] = None"
| "first_mask file (msk # masks) =
     (if fnmatch file msk then Some msk else first_mask file masks)"

fun matching_mask :: "string list \<Rightarrow> string list \<Rightarrow> string option" where
  "matching_mask [] masks = None"
| "matching_mask (file # files) masks =
     (case first_mask file masks of
        Some msk \<Rightarrow> Some msk
      | None \<Rightarrow> matching_mask files masks)"

text \<open>The counting loops of the \<open>require_all\<close> rule, with the counter as accumulator.\<close>

fun count_masks :: "string \<Rightarrow> string list \<Rightarrow> nat \<Rightarrow> nat" where
  "count_masks file [] matches = matches"
| "count_masks file (msk # masks) matches =
     count_masks file masks (if fnmatch file msk then matches + 1 else matches)"

fun count_matches :: "string list \<Rightarrow> string list \<Rightarrow> nat \<Rightarrow> nat" where
  "count_matches [] masks matches = matches"
| "count_matches (file # files) masks matches =
     count_matches files masks (count_masks file masks matches)"

definition reject_entry :: "string \<Rightarrow> bool \<Rightarrow> entry \<Rightarrow> entry" where
  "reject_entry reason remember e = e\<lparr>state := Rejected reason remember\<rparr>"

text \<open>
  \<open>process_entry\<close> returns whether it rejected the entry (Python's \<open>True\<close>, or \<open>None\<close>
  when it falls off the end), together with the entry.
\<close>

definition process_entry :: "content_filter_config \<Rightarrow> entry \<Rightarrow> bool \<times> entry" where
  "process_entry task_config e =
     (let config = get_config task_config in
      case content_files e of
        None \<Rightarrow> (False, e)
      | Some files \<Rightarrow>
          if truthy_list (require config)
             \<and> \<not> truthy_mask (matching_mask files (masks_of (require config)))
          then (True, reject_entry ''does not have any of the required filetypes'' True e)
          else if truthy_list (require_all config)
             \<and> count_matches files (masks_of (require_all config)) 0
                 \<noteq> length (masks_of (require_all config))
          then (True, reject_entry ''does not have all of the required filetypes'' True e)
          else if truthy_list (reject config)
          then (let msk = matching_mask files (masks_of (reject config))
                in if truthy_mask msk
                   then (True, reject_entry (''has banned file '' @ format_mask msk) True e)
                   else (False, e))
          else (False, e))"

text \<open>\<open>posixpath.join\<close> of the standard library, for two components.\<close>

definition posixpath_join :: "string \<Rightarrow> string \<Rightarrow> string" where
  "posixpath_join a b =
     (if b \<noteq> [] \<and> hd b = CHR ''/'' then b
      else if a = [] \<or> last a = CHR ''/'' then a @ b
      else a @ ''/'' @ b)"

definition parse_torrent_files :: "entry \<Rightarrow> entry" where
  "parse_torrent_files e =
     (case torrent e of
        None \<Rightarrow> e
      | Some filelist \<Rightarrow>
          (let files = map (\<lambda>(path, name). posixpath_join path name) filelist
           in if files \<noteq> [] then e\<lparr>content_files := Some files\<rparr> else e))"

text \<open>
  One round of the loop of \<open>on_task_modify\<close>, for one accepted entry: the entry after it
  and whether \<open>task.rerun()\<close> was called. The command-line options \<open>test\<close> and \<open>learn\<close>
  only print a notice (the early return is commented out in the source).
\<close>

definition modify_entry :: "content_filter_config \<Rightarrow> entry \<Rightarrow> entry \<times> bool" where
  "modify_entry task_config e0 =
     (let config = get_config task_config;
          e1 = parse_torrent_files e0;
          (rejected, e2) = process_entry task_config e1
      in if rejected then (e2, True)
         else if content_files e2 = None \<and> truthy_bool (strict config)
         then (reject_entry ''no content files parsed for entry'' True e2, True)
         else (e2, False))"

record task =
  entries :: "entry list"
  rerun :: bool

fun modify_entries :: "content_filter_config \<Rightarrow> entry list \<Rightarrow> bool \<Rightarrow> entry list \<times> bool" where
  "modify_entries task_config [] r = ([], r)"
| "modify_entries task_config (e # es) r =
     (if state e = Accepted
      then (let (e', r1) = modify_entry task_config e;
                (es', r2) = modify_entries task_config es (r \<or> r1)
            in (e' # es', r2))
      else (let (es', r2) = modify_entries task_config es r in (e # es', r2)))"

definition on_task_modify :: "content_filter_config \<Rightarrow> task \<Rightarrow> task" where
  "on_task_modify task_config t =
     (let (es, r) = modify_entries task_config (entries t) (rerun t)
      in t\<lparr>entries := es, rerun := r\<rparr>)"

section \<open>The feed output (\<open>plugins/output/rss.py\<close>)\<close>

subsection \<open>Data\<close>

text \<open>
  Time stamps are integers: the microseconds since \<open>datetime.min\<close>, midnight of 1 January
  of year 1. The last value of \<open>datetime\<close> is the last microsecond of year 9999, 3652059
  days later (\<open>date.max.toordinal()\<close>).
\<close>

definition day_us :: int where
  "day_us = 86400000000"

definition datetime_max :: int where
  "datetime_max = 3652059 * day_us - 1"

text \<open>A row of table \<open>make_rss\<close>. The primary key is given by the store on insertion.\<close>

record RSSEntry =
  rss_id :: nat
  rss_title :: string
  rss_description :: string
  rss_link :: "string option"
  rss_rsslink :: "string option"
  rss_file :: string
  published :: int

text \<open>The plugin's configuration: a text (the file) or a dictionary.\<close>

record make_rss_dict =
  raw_file :: string
  raw_days :: "int option"
  raw_items :: "int option"
  raw_history :: "bool option"
  raw_rsslink :: "string option"
  raw_encoding :: "string option"
  raw_title :: "string option"
  raw_link :: "string list option"
  raw_template :: "string option"

datatype make_rss_config = Path string | Dict make_rss_dict

record rss_config =
  config_file :: string
  days :: int
  items :: int
  history :: bool
  rsslink :: "string option"
  encoding :: string
  title_template :: string
  link :: "string list"
  template :: string

definition setdefault :: "'a option \<Rightarrow> 'a \<Rightarrow> 'a" where
  "setdefault v d = (case v of None \<Rightarrow> d | Some x \<Rightarrow> x)"

definition get_config_rss :: "make_rss_config \<Rightarrow> rss_config" where
  "get_config_rss task_config =
     (let config = (case task_config of
                      Path f \<Rightarrow> \<lparr>raw_file = f, raw_days = None, raw_items = None,
                                  raw_history = None, raw_rsslink = None, raw_encoding = None,
                                  raw_title = None, raw_link = None, raw_template = None\<rparr>
                    | Dict d \<Rightarrow> d)
      in \<lparr>config_file = raw_file config,
          days = setdefault (raw_days config) 7,
          items = setdefault (raw_items config) (- 1),
          history = setdefault (raw_history config) True,
          rsslink = raw_rsslink config,
          encoding = setdefault (raw_encoding config) ''iso-8859-1'',
          title_template = setdefault (raw_title config) ''{{title}} (from {{task}})'',
          link = setdefault (raw_link config) [''imdb_url'', ''input_url''] @ [''url''],
          template = setdefault (raw_template config) ''default''\<rparr>)"

text \<open>The generated feed: \<open>PyRSS2Gen.RSSItem\<close> and \<open>PyRSS2Gen.RSS2\<close>.\<close>

record rss_item =
  item_title :: string
  item_description :: string
  item_link :: "string option"
  pubDate :: int

record rss2 =
  rss2_title :: string
  rss2_link :: string
  rss2_description :: string
  lastBuildDate :: int
  rss2_items :: "rss_item list"

datatype exn = PluginWarning | RenderError | LookupError | IOError | OverflowError | OtherError

datatype outcome = Returned | Raised exn

datatype log_event =
    Debug_disabling_history
  | Error_rendering string
  | Debug_saving string
  | Trace_skipping string
  | Trace_adding string string
  | Verbose_writing string
  | Critical_unknown_encoding string
  | Critical_unable_to_write string

text \<open>What reaches the destination medium: a file opened for writing, a document written.\<close>

datatype fs_event = Open_w string | Write_xml string rss2 string

text \<open>
  The collaborators and the clock, as parameters: whether \<open>PyRSS2Gen\<close> was imported; the
  clock reading taken once, when the module defines class \<open>RSSEntry\<close>, which is the
  column default of \<open>published\<close>; the readings of \<open>datetime.today()\<close>, one for each row
  that \<open>on_process_end\<close> examines; the reading of \<open>utcnow()\<close> for the build date;
  \<open>os.path.expanduser\<close>; \<open>open(fn, 'w')\<close> and \<open>write_xml\<close>, which give the exception
  they raise, if any; \<open>entry.render(template)\<close> and
  \<open>render_from_entry(get_template(name, 'rss'), entry)\<close>.
\<close>

record env =
  rss2gen :: bool
  schema_load_time :: int
  today :: "nat \<Rightarrow> int"
  utcnow :: int
  expanduser :: "string \<Rightarrow> string"
  open_w :: "string \<Rightarrow> exn option"
  write_xml :: "string \<Rightarrow> rss2 \<Rightarrow> string \<Rightarrow> exn option"
  entry_render :: "entry \<Rightarrow> string \<Rightarrow> exn + string"
  render_from_entry :: "string \<Rightarrow> entry \<Rightarrow> exn + string"

record options =
  opt_test :: bool
  opt_learn :: bool

text \<open>
  The state: the dictionary \<open>self.written\<close> of the plugin instance, the table, the next
  primary key, what was done to the destination medium, and the log.
\<close>

record plugin_state =
  written :: "string \<rightharpoonup> bool"
  db :: "RSSEntry list"
  next_id :: nat
  fs :: "fs_event list"
  logged :: "log_event list"

subsection \<open>Recording: \<open>on_task_exit\<close>\<close>

definition entry_get :: "entry \<Rightarrow> string \<Rightarrow> string option" where
  "entry_get e field = (if field = ''title'' then Some (title e) else entry_fields e field)"

fun select_link :: "entry \<Rightarrow> string list \<Rightarrow> string option" where
  "select_link e [] = None"
| "select_link e (field # rest) =
     (case entry_get e field of Some v \<Rightarrow> Some v | None \<Rightarrow> select_link e rest)"

definition describe :: "env \<Rightarrow> rss_config \<Rightarrow> entry \<Rightarrow> string \<times> log_event list" where
  "describe env config e =
     (case render_from_entry env (template config) e of
        Inr d \<Rightarrow> (d, [])
      | Inl x \<Rightarrow> (title e @ '' - (Render Error)'', [Error_rendering (title e)]))"

fun save_entries :: "env \<Rightarrow> rss_config \<Rightarrow> entry list \<Rightarrow> plugin_state \<Rightarrow> outcome \<times> plugin_state" where
  "save_entries env config [] s = (Returned, s)"
| "save_entries env config (e # es) s =
     (case entry_render env e (title_template config) of
        Inl x \<Rightarrow> (Raised x, s)
      | Inr t \<Rightarrow>
          (let (d, lg) = describe env config e;
               rss = \<lparr>rss_id = next_id s, rss_title = t, rss_description = d,
                      rss_link = select_link e (link config), rss_rsslink = None,
                      rss_file = config_file config, published = schema_load_time env\<rparr>
           in save_entries env config es
                (s\<lparr>db := db s @ [rss], next_id := Suc (next_id s),
                   logged := logged s @ lg @ [Debug_saving (title e)]\<rparr>)))"

definition accepted :: "task \<Rightarrow> entry list" where
  "accepted t = filter (\<lambda>e. state e = Accepted) (entries t)"

definition on_task_exit ::
  "env \<Rightarrow> options \<Rightarrow> make_rss_config \<Rightarrow> task \<Rightarrow> plugin_state \<Rightarrow> outcome \<times> plugin_state" where
  "on_task_exit env opts task_config t s =
     (if \<not> rss2gen env then (Raised PluginWarning, s)
      else
        (let config = get_config_rss task_config in
         if opt_test opts then (Returned, s)
         else
           (let s1 = (if \<not> history config
                      then s\<lparr>db := filter (\<lambda>item. rss_file item \<noteq> config_file config) (db s),
                             logged := logged s @ [Debug_disabling_history]\<rparr>
                      else s)
            in save_entries env config (accepted t) s1)))"

subsection \<open>Finalising: \<open>on_process_end\<close>\<close>

text \<open>
  The query: the rows of one file, \<open>ORDER BY published DESC\<close>. Rows with equal dates come
  in the order of the table.
\<close>

definition query_file :: "RSSEntry list \<Rightarrow> string \<Rightarrow> RSSEntry list" where
  "query_file rows f = sort_key (\<lambda>r. - published r) (filter (\<lambda>r. rss_file r = f) rows)"

definition gen :: "RSSEntry \<Rightarrow> rss_item" where
  "gen db_item =
     \<lparr>item_title = rss_title db_item, item_description = rss_description db_item,
      item_link = rss_link db_item, pubDate = published db_item\<rparr>"

text \<open>
  The two operations of \<open>datetime\<close> in the test on the age. \<open>timedelta(days=d)\<close> raises
  \<open>OverflowError\<close> when \<open>d\<close> has a magnitude above 999999999; a \<open>datetime\<close> minus a
  \<open>timedelta\<close> raises \<open>OverflowError\<close> when the result is not a \<open>datetime\<close>.
\<close>

definition timedelta_days :: "int \<Rightarrow> exn + int" where
  "timedelta_days d = (if 999999999 < \<bar>d\<bar> then Inl OverflowError else Inr (d * day_us))"

definition datetime_sub :: "int \<Rightarrow> int \<Rightarrow> exn + int" where
  "datetime_sub t delta =
     (let r = t - delta
      in if r < 0 \<or> datetime_max < r then Inl OverflowError else Inr r)"

text \<open>
  The body of the loop up to \<open>if add:\<close>, for the \<open>k\<close>-th row examined: the value of \<open>add\<close>,
  or the exception raised by the test on the age.
\<close>

definition add_item :: "env \<Rightarrow> rss_config \<Rightarrow> nat \<Rightarrow> rss_item list \<Rightarrow> RSSEntry \<Rightarrow> exn + bool" where
  "add_item env config k rss_items db_item =
     (let add0 = True;
          add1 = (if items config \<noteq> - 1
                  then (if int (length rss_items) > items config then False else add0)
                  else add0)
      in if days config \<noteq> - 1
         then (case timedelta_days (days config) of
                 Inl x \<Rightarrow> Inl x
               | Inr delta \<Rightarrow>
                   (case datetime_sub (today env k) delta of
                      Inl x \<Rightarrow> Inl x
                    | Inr cutoff \<Rightarrow>
                        Inr (if cutoff > published db_item then False else add1)))
         else Inr add1)"

text \<open>
  The loop: the exception that ended it, if any, the items of the feed, and the rows
  handed to \<open>session.delete\<close>.
\<close>

fun make_items ::
  "env \<Rightarrow> rss_config \<Rightarrow> nat \<Rightarrow> RSSEntry list \<Rightarrow> rss_item list \<Rightarrow> RSSEntry list
     \<Rightarrow> exn option \<times> rss_item list \<times> RSSEntry list" where
  "make_items env config k [] rss_items deleted = (None, rss_items, deleted)"
| "make_items env config k (db_item # db_items) rss_items deleted =
     (case add_item env config k rss_items db_item of
        Inl x \<Rightarrow> (Some x, rss_items, deleted)
      | Inr add \<Rightarrow>
          (if add
           then make_items env config (Suc k) db_items (rss_items @ [gen db_item]) deleted
           else make_items env config (Suc k) db_items rss_items (deleted @ [db_item])))"

definition delete_rows :: "RSSEntry list \<Rightarrow> RSSEntry list \<Rightarrow> RSSEntry list" where
  "delete_rows deleted rows = filter (\<lambda>r. rss_id r \<notin> set (map rss_id deleted)) rows"

text \<open>
  The first half of \<open>on_process_end\<close>, up to the document: the query, the loop, the commit
  and the \<open>RSS2\<close> object. The deletions take effect with \<open>session.commit()\<close>: when the loop
  raises, the commit is not reached and the table stays as it was.
\<close>

definition make_rss ::
  "env \<Rightarrow> rss_config \<Rightarrow> plugin_state \<Rightarrow> exn \<times> plugin_state + rss2 \<times> plugin_state" where
  "make_rss env config s =
     (let db_items = query_file (db s) (config_file config);
          (raised, rss_items, deleted) = make_items env config 0 db_items [] [];
          s0 = s\<lparr>logged := logged s
                   @ map (\<lambda>i. Trace_adding (item_title i) (config_file config)) rss_items\<rparr>
      in case raised of
           Some x \<Rightarrow> Inl (x, s0)
         | None \<Rightarrow>
             (let s1 = s0\<lparr>db := delete_rows deleted (db s)\<rparr>;
                  rss = \<lparr>rss2_title = ''FlexGet'',
                         rss2_link = setdefault (rsslink config) ''http://flexget.com'',
                         rss2_description = ''FlexGet generated RSS feed'',
                         lastBuildDate = utcnow env,
                         rss2_items = rss_items\<rparr>
              in Inr (rss, s1)))"

definition on_process_end ::
  "env \<Rightarrow> options \<Rightarrow> make_rss_config \<Rightarrow> plugin_state \<Rightarrow> outcome \<times> plugin_state" where
  "on_process_end env opts task_config s =
     (if \<not> rss2gen env then (Returned, s)
      else if opt_learn opts then (Returned, s)
      else
        (let config = get_config_rss task_config in
         if written s (config_file config) \<noteq> None
         then (Returned, s\<lparr>logged := logged s @ [Trace_skipping (config_file config)]\<rparr>)
         else
           (case make_rss env config s of
              Inl (x, s1) \<Rightarrow> (Raised x, s1)
            | Inr (rss, s1) \<Rightarrow>
                (let fn = expanduser env (config_file config)
                 in case open_w env fn of
                      Some x \<Rightarrow> (Raised x, s1)
                    | None \<Rightarrow>
                        (let s2 = s1\<lparr>fs := fs s1 @ [Open_w fn],
                                     logged := logged s1 @ [Verbose_writing fn]\<rparr>
                         in case write_xml env fn rss (encoding config) of
                              Some LookupError \<Rightarrow>
                                (Returned,
                                 s2\<lparr>logged := logged s2
                                      @ [Critical_unknown_encoding (encoding config)]\<rparr>)
                            | Some IOError \<Rightarrow>
                                (Returned,
                                 s2\<lparr>logged := logged s2 @ [Critical_unable_to_write fn]\<rparr>)
                            | Some x \<Rightarrow> (Raised x, s2)
                            | None \<Rightarrow>
                                (Returned,
                                 s2\<lparr>fs := fs s2 @ [Write_xml fn rss (encoding config)],
                                    written := (written s2)(config_file config \<mapsto> True)\<rparr>))))))"

section \<open>The spec's reading and example inputs\<close>

text \<open>
  The reading of \<open>matchAny\<close> in the spec's words: the first mask, in the order of the
  mask list, that some file matches.
\<close>

definition spec_matchAny :: "string list \<Rightarrow> string list \<Rightarrow> string option" where
  "spec_matchAny files masks = find (\<lambda>m. list_ex (\<lambda>f. fnmatch f m) files) masks"

text \<open>
  Collaborators that never fail, with a clock that stands at day 10; variants where the
  destination cannot be opened, the title fails to render, the description fails to
  render; a table with rows of one file published at day 0, day 7 and day 9; a task with
  one accepted entry.
\<close>

definition quiet_env :: env where
  "quiet_env =
     \<lparr>rss2gen = True, schema_load_time = 0, today = (\<lambda>k. 10 * day_us),
      utcnow = 10 * day_us, expanduser = (\<lambda>p. p), open_w = (\<lambda>fn. None),
      write_xml = (\<lambda>fn rss enc. None), entry_render = (\<lambda>e t. Inr (title e)),
      render_from_entry = (\<lambda>n e. Inr (title e))\<rparr>"

definition unwritable_env :: env where
  "unwritable_env = quiet_env\<lparr>open_w := (\<lambda>fn. Some IOError)\<rparr>"

definition no_options :: options where
  "no_options = \<lparr>opt_test = False, opt_learn = False\<rparr>"

definition example_row :: "nat \<Rightarrow> string \<Rightarrow> int \<Rightarrow> RSSEntry" where
  "example_row n t p =
     \<lparr>rss_id = n, rss_title = t, rss_description = t, rss_link = None, rss_rsslink = None,
      rss_file = ''feed.rss'', published = p\<rparr>"

definition example_state :: plugin_state where
  "example_state =
     \<lparr>written = Map.empty,
      db = [example_row 1 ''a'' 0, example_row 2 ''b'' (7 * day_us),
            example_row 3 ''c'' (9 * day_us)],
      next_id = 4, fs = [], logged = []\<rparr>"

definition example_config :: "int \<Rightarrow> int \<Rightarrow> make_rss_config" where
  "example_config d n =
     Dict \<lparr>raw_file = ''feed.rss'', raw_days = Some d, raw_items = Some n,
           raw_history = None, raw_rsslink = None, raw_encoding = None, raw_title = None,
           raw_link = None, raw_template = None\<rparr>"

definition example_rss2 :: "rss_item list \<Rightarrow> rss2" where
  "example_rss2 its =
     \<lparr>rss2_title = ''FlexGet'', rss2_link = ''http://flexget.com'',
      rss2_description = ''FlexGet generated RSS feed'', lastBuildDate = 10 * day_us,
      rss2_items = its\<rparr>"

definition title_fails_env :: env where
  "title_fails_env = quiet_env\<lparr>entry_render := (\<lambda>e t. Inl RenderError)\<rparr>"

definition description_fails_env :: env where
  "description_fails_env = quiet_env\<lparr>render_from_entry := (\<lambda>n e. Inl RenderError)\<rparr>"

definition example_entry :: entry where
  "example_entry =
     \<lparr>title = ''show'', entry_fields = [''url'' \<mapsto> ''http://x/show''], torrent = None,
      content_files = None, state = Accepted\<rparr>"

definition example_task :: task where
  "example_task = \<lparr>entries = [example_entry], rerun = False\<rparr>"

definition empty_state :: plugin_state where
  "empty_state = \<lparr>written = Map.empty, db = [], next_id = 1, fs = [], logged = []\<rparr>"

text \<open>
  A clock in year 2013, day 735000 of the time line, and a table read at that time: rows
  of \<open>feed.rss\<close> aged 10 days, 1 day and 7 days, in this order in the table, and between
  them a row of another file aged 20 days.
\<close>

definition modern_env :: env where
  "modern_env = quiet_env\<lparr>today := (\<lambda>k. 735000 * day_us), utcnow := 735000 * day_us\<rparr>"

definition mixed_state :: plugin_state where
  "mixed_state =
     \<lparr>written = Map.empty,
      db = [example_row 1 ''a'' (734990 * day_us),
            (example_row 2 ''x'' (734980 * day_us))\<lparr>rss_file := ''other.rss''\<rparr>,
            example_row 3 ''c'' (734999 * day_us),
            example_row 4 ''b'' (734993 * day_us)],
      next_id = 5, fs = [], logged = []\<rparr>"

text \<open>
  A task with two accepted entries, and collaborators for which no description renders
  and the title of the second entry does not render.
\<close>

definition second_entry :: entry where
  "second_entry = example_entry\<lparr>title := ''other''\<rparr>"

definition two_task :: task where
  "two_task = \<lparr>entries = [example_entry, second_entry], rerun = False\<rparr>"

definition second_title_fails_env :: env where
  "second_title_fails_env =
     description_fails_env
       \<lparr>entry_render := (\<lambda>e t. if title e = ''other'' then Inl RenderError else Inr (title e))\<rparr>"

section \<open>Properties of the content filter\<close>

subsection \<open>\<open>matching_mask\<close>\<close>

lemma first_mask_find: "first_mask f masks = find (fnmatch f) masks"
  by (induction masks) auto

lemma first_mask_None: "(first_mask f masks = None) = (\<not> list_ex (fnmatch f) masks)"
  by (induction masks) auto

lemma matching_mask_find:
  "matching_mask files masks =
     (case find (\<lambda>f. list_ex (fnmatch f) masks) files of
        None \<Rightarrow> None
      | Some f \<Rightarrow> find (fnmatch f) masks)"
proof (induction files)
  case Nil
  show ?case by simp
next
  case (Cons f fs)
  show ?case
  proof (cases "first_mask f masks")
    case None
    then have "\<not> list_ex (fnmatch f) masks" by (simp add: first_mask_None)
    with None Cons show ?thesis by simp
  next
    case (Some m)
    then have "list_ex (fnmatch f) masks" using first_mask_None [of f masks] by simp
    with Some show ?thesis by (simp add: first_mask_find)
  qed
qed

lemma matching_mask_None:
  "(matching_mask files masks = None) = (\<not> list_ex (\<lambda>f. list_ex (fnmatch f) masks) files)"
proof (induction files)
  case Nil
  show ?case by simp
next
  case (Cons f fs)
  show ?case
  proof (cases "first_mask f masks")
    case None
    then have "\<not> list_ex (fnmatch f) masks" by (simp add: first_mask_None)
    with None Cons show ?thesis by simp
  next
    case (Some m)
    then have "list_ex (fnmatch f) masks" using first_mask_None [of f masks] by simp
    with Some show ?thesis by simp
  qed
qed

text \<open>
  Claim C2, as the code has it. \<open>matching_mask\<close> returns \<open>False\<close> (here \<open>None\<close>) exactly
  when no file matches any mask. Otherwise the loops run file by file: the result is the
  first mask, in mask order, matched by the first file, in file order, that matches any
  mask at all.
\<close>

theorem matching_mask_first_file:
  "matching_mask files masks =
     (case find (\<lambda>f. list_ex (fnmatch f) masks) files of
        None \<Rightarrow> None
      | Some f \<Rightarrow> find (fnmatch f) masks)
   \<and> ((matching_mask files masks = None)
        = (\<not> list_ex (\<lambda>f. list_ex (fnmatch f) masks) files))"
  using matching_mask_find [of files masks] matching_mask_None [of files masks]
  by (rule conjI)

text \<open>
  Claim C2 as stated fails: with the files \<open>a.nfo\<close>, \<open>b.mkv\<close> and the masks \<open>*.mkv\<close>,
  \<open>*.nfo\<close> the first mask of the list that some file matches is \<open>*.mkv\<close>, and the code
  returns \<open>*.nfo\<close>, the mask of the first file.
\<close>

theorem matching_mask_order_counterexample:
  "matching_mask [''a.nfo'', ''b.mkv''] [''*.mkv'', ''*.nfo''] = Some ''*.nfo''
   \<and> spec_matchAny [''a.nfo'', ''b.mkv''] [''*.mkv'', ''*.nfo''] = Some ''*.mkv''"
  by (simp add: spec_matchAny_def fnmatch_def)

subsection \<open>\<open>require_all\<close>\<close>

lemma count_masks_filter:
  "count_masks f masks n = n + length (filter (fnmatch f) masks)"
  by (induction masks arbitrary: n) auto

lemma count_matches_sum:
  "count_matches files masks n = n + (\<Sum>f\<leftarrow>files. length (filter (fnmatch f) masks))"
  by (induction files arbitrary: n) (auto simp: count_masks_filter)

text \<open>
  Claim C1 at the failing input. The rule counts the pairs of a file and a mask that
  match and compares the count with the number of masks. With the files \<open>a.mkv\<close>,
  \<open>b.mkv\<close> and \<open>require_all\<close> = \<open>*.mkv\<close>, \<open>*.srt\<close> the count is 2, the number of masks is
  2, and the entry is not rejected, although no file matches \<open>*.srt\<close>.
\<close>

theorem require_all_counts_pairs:
  "process_entry
     \<lparr>raw_require = None, raw_require_all = Some (TextList [''*.mkv'', ''*.srt'']),
      raw_reject = None, raw_strict = None\<rparr>
     \<lparr>title = ''t'', entry_fields = Map.empty, torrent = None,
      content_files = Some [''a.mkv'', ''b.mkv''], state = Accepted\<rparr>
   = (False, \<lparr>title = ''t'', entry_fields = Map.empty, torrent = None,
      content_files = Some [''a.mkv'', ''b.mkv''], state = Accepted\<rparr>)
   \<and> \<not> list_ex (\<lambda>f. fnmatch f ''*.srt'') [''a.mkv'', ''b.mkv'']"
  by (simp add: process_entry_def get_config_def as_list_def truthy_list_def masks_of_def
      fnmatch_def)

subsection \<open>The order of the rules\<close>

lemma matching_mask_member:
  "matching_mask files masks = Some m \<Longrightarrow> m \<in> set masks"
proof (induction files)
  case Nil
  then show ?case by simp
next
  case (Cons f fs)
  have "first_mask f masks = Some m \<Longrightarrow> m \<in> set masks"
    by (induction masks) (auto split: if_splits)
  with Cons show ?case by (auto split: option.splits)
qed

lemma truthy_mask_matching:
  assumes "[] \<notin> set masks"
  shows "truthy_mask (matching_mask files masks) = (matching_mask files masks \<noteq> None)"
proof (cases "matching_mask files masks")
  case None
  then show ?thesis by (simp add: truthy_mask_def)
next
  case (Some m)
  with assms matching_mask_member [of files masks m] have "m \<noteq> []" by auto
  with Some show ?thesis by (simp add: truthy_mask_def)
qed

text \<open>
  The rules in the order of the source, for masks that are not the empty text: the
  \<open>require\<close> rule, then the count of \<open>require_all\<close>, then the \<open>reject\<close> rule, then no
  rejection.
\<close>

lemma process_entry_rule_order:
  assumes files: "content_files e = Some files"
    and cfg: "config = get_config task_config"
    and req: "[] \<notin> set (masks_of (require config))"
    and rej: "[] \<notin> set (masks_of (reject config))"
  shows "process_entry task_config e =
     (if masks_of (require config) \<noteq> []
         \<and> matching_mask files (masks_of (require config)) = None
      then (True, reject_entry ''does not have any of the required filetypes'' True e)
      else if masks_of (require_all config) \<noteq> []
         \<and> count_matches files (masks_of (require_all config)) 0
             \<noteq> length (masks_of (require_all config))
      then (True, reject_entry ''does not have all of the required filetypes'' True e)
      else if masks_of (reject config) \<noteq> []
         \<and> matching_mask files (masks_of (reject config)) \<noteq> None
      then (True, reject_entry
              (''has banned file '' @ format_mask (matching_mask files (masks_of (reject config))))
              True e)
      else (False, e))"
proof -
  have t: "truthy_list v = (masks_of v \<noteq> [])" for v
    by (cases v) (simp_all add: truthy_list_def masks_of_def)
  have n: "\<not> truthy_mask None"
    by (simp add: truthy_mask_def)
  show ?thesis
    unfolding process_entry_def cfg [symmetric] Let_def
    by (simp add: files t n truthy_mask_matching [OF req] truthy_mask_matching [OF rej])
qed

text \<open>
  Claim C7 at the failing input. The empty mask matches the file with the empty name;
  \<open>matching_mask\<close> returns that mask, the empty text, which Python takes for false; so the
  \<open>require\<close> rule rejects the entry although a file matches a required mask.
\<close>

theorem empty_mask_is_falsy:
  "fnmatch '''' ''''
   \<and> process_entry
     \<lparr>raw_require = Some (Text ''''), raw_require_all = None,
      raw_reject = None, raw_strict = None\<rparr>
     \<lparr>title = ''t'', entry_fields = Map.empty, torrent = None,
      content_files = Some [''''], state = Accepted\<rparr>
   = (True, \<lparr>title = ''t'', entry_fields = Map.empty, torrent = None,
      content_files = Some [''''],
      state = Rejected ''does not have any of the required filetypes'' True\<rparr>)"
  by (simp add: process_entry_def get_config_def as_list_def truthy_list_def truthy_mask_def
      masks_of_def fnmatch_def reject_entry_def)

subsection \<open>No content files\<close>

lemma parse_torrent_files_None:
  "content_files (parse_torrent_files e) = None \<Longrightarrow> parse_torrent_files e = e"
  by (auto simp: parse_torrent_files_def Let_def split: option.splits if_splits)

lemma process_entry_no_files:
  "content_files e = None \<Longrightarrow> process_entry task_config e = (False, e)"
  by (simp add: process_entry_def)

text \<open>
  Claim C8. An entry that has no content files after the torrent was looked at is rejected,
  with the reason that no content files were parsed, exactly when \<open>strict\<close> is set and true;
  otherwise it is left as it is. The masks of \<open>require\<close>, \<open>require_all\<close> and \<open>reject\<close> play
  no part in the result.
\<close>

theorem no_content_files_strict:
  assumes "content_files (parse_torrent_files e) = None"
  shows "modify_entry task_config e =
     (if truthy_bool (raw_strict task_config)
      then (reject_entry ''no content files parsed for entry'' True e, True)
      else (e, False))"
proof -
  have p: "parse_torrent_files e = e"
    using assms by (rule parse_torrent_files_None)
  with assms have n: "content_files e = None" by simp
  have s: "strict (get_config task_config) = raw_strict task_config"
    by (simp add: get_config_def)
  show ?thesis
    by (simp add: modify_entry_def p process_entry_no_files [OF n] n s)
qed

theorem no_content_files_strict_witness:
  "content_files (parse_torrent_files
      \<lparr>title = ''t'', entry_fields = Map.empty, torrent = Some [],
       content_files = None, state = Accepted\<rparr>) = None
   \<and> modify_entry
       \<lparr>raw_require = Some (Text ''*.mkv''), raw_require_all = None,
        raw_reject = None, raw_strict = Some True\<rparr>
       \<lparr>title = ''t'', entry_fields = Map.empty, torrent = Some [],
        content_files = None, state = Accepted\<rparr>
     = (\<lparr>title = ''t'', entry_fields = Map.empty, torrent = Some [],
         content_files = None,
         state = Rejected ''no content files parsed for entry'' True\<rparr>, True)
   \<and> modify_entry
       \<lparr>raw_require = Some (Text ''*.mkv''), raw_require_all = None,
        raw_reject = None, raw_strict = Some False\<rparr>
       \<lparr>title = ''t'', entry_fields = Map.empty, torrent = Some [],
        content_files = None, state = Accepted\<rparr>
     = (\<lparr>title = ''t'', entry_fields = Map.empty, torrent = Some [],
         content_files = None, state = Accepted\<rparr>, False)"
proof -
  let ?e = "\<lparr>title = ''t'', entry_fields = Map.empty, torrent = Some [],
       content_files = None, state = Accepted\<rparr>"
  have h: "content_files (parse_torrent_files ?e) = None"
    by (simp add: parse_torrent_files_def)
  show ?thesis
    using h no_content_files_strict [OF h,
        of "\<lparr>raw_require = Some (Text ''*.mkv''), raw_require_all = None,
             raw_reject = None, raw_strict = Some True\<rparr>"]
      no_content_files_strict [OF h,
        of "\<lparr>raw_require = Some (Text ''*.mkv''), raw_require_all = None,
             raw_reject = None, raw_strict = Some False\<rparr>"]
    by (simp add: truthy_bool_def reject_entry_def)
qed

section \<open>Properties of the feed output\<close>

subsection \<open>The loop over the rows\<close>

text \<open>
  The test on the age computes the cut-off date, the clock reading minus \<open>days\<close> days.
  When \<open>days\<close> is within the range of \<open>timedelta\<close> and the cut-off date within the range
  of \<open>datetime\<close>, the row is added exactly when its age is at most \<open>days\<close> days and the
  feed does not yet hold more than \<open>items\<close> entries. Otherwise the test raises
  \<open>OverflowError\<close>.
\<close>

lemma add_item_in_range:
  assumes "days config \<noteq> - 1" "\<bar>days config\<bar> \<le> 999999999"
    "0 \<le> today env k - days config * day_us"
    "today env k - days config * day_us \<le> datetime_max"
  shows "add_item env config k acc r
       = Inr (today env k - published r \<le> days config * day_us
              \<and> (items config = - 1 \<or> int (length acc) \<le> items config))"
  using assms
  by (auto simp: add_item_def timedelta_days_def datetime_sub_def Let_def)

lemma add_item_out_of_range:
  assumes "days config \<noteq> - 1"
    "\<not> (\<bar>days config\<bar> \<le> 999999999 \<and> 0 \<le> today env k - days config * day_us
        \<and> today env k - days config * day_us \<le> datetime_max)"
  shows "add_item env config k acc r = Inl OverflowError"
  using assms
  by (auto simp: add_item_def timedelta_days_def datetime_sub_def Let_def)

text \<open>
  When every cut-off date is in range, the loop ends without an exception. It splits the
  rows in two, the ones that went into the feed, in the order of the query, and the ones
  handed to \<open>session.delete\<close>; the row at position \<open>i\<close> is kept exactly when its age is at
  most \<open>days\<close> days and at most \<open>items\<close> rows were kept before it.
\<close>

lemma make_items_exact:
  assumes d: "days config \<noteq> - 1"
  shows "distinct rows \<Longrightarrow>
    \<forall>i<length rows. \<bar>days config\<bar> \<le> 999999999
        \<and> 0 \<le> today env (k + i) - days config * day_us
        \<and> today env (k + i) - days config * day_us \<le> datetime_max \<Longrightarrow>
    \<exists>kept. make_items env config k rows acc deleted
          = (None, acc @ map gen kept, deleted @ [r\<leftarrow>rows. r \<notin> set kept])
      \<and> kept = [r\<leftarrow>rows. r \<in> set kept]
      \<and> (\<forall>i<length rows. (rows ! i \<in> set kept)
            = (today env (k + i) - published (rows ! i) \<le> days config * day_us
               \<and> (items config = - 1
                    \<or> int (length acc + length [r\<leftarrow>take i rows. r \<in> set kept])
                         \<le> items config)))"
proof (induction rows arbitrary: k acc deleted)
  case Nil
  show ?case by simp
next
  case (Cons r rs)
  from Cons.prems(1) have dist: "distinct rs" and fresh: "r \<notin> set rs" by simp_all
  from Cons.prems(2) have r0: "\<bar>days config\<bar> \<le> 999999999
        \<and> 0 \<le> today env k - days config * day_us
        \<and> today env k - days config * day_us \<le> datetime_max"
    by (auto dest: spec [of _ 0])
  have rng: "\<forall>i<length rs. \<bar>days config\<bar> \<le> 999999999
        \<and> 0 \<le> today env (Suc k + i) - days config * day_us
        \<and> today env (Suc k + i) - days config * day_us \<le> datetime_max"
  proof (intro allI impI)
    fix i assume "i < length rs"
    then have "Suc i < length (r # rs)" by simp
    with Cons.prems(2) show "\<bar>days config\<bar> \<le> 999999999
        \<and> 0 \<le> today env (Suc k + i) - days config * day_us
        \<and> today env (Suc k + i) - days config * day_us \<le> datetime_max"
      by (auto dest: spec [of _ "Suc i"])
  qed
  let ?b = "today env k - published r \<le> days config * day_us
              \<and> (items config = - 1 \<or> int (length acc) \<le> items config)"
  have a: "add_item env config k acc r = Inr ?b"
    using add_item_in_range [OF d, of env k acc r] r0 by simp
  show ?case
  proof (cases ?b)
    case True
    from Cons.IH [OF dist rng, of "acc @ [gen r]" deleted] obtain kept where
      m: "make_items env config (Suc k) rs (acc @ [gen r]) deleted
          = (None, (acc @ [gen r]) @ map gen kept, deleted @ [x\<leftarrow>rs. x \<notin> set kept])"
      and sub: "kept = [x\<leftarrow>rs. x \<in> set kept]"
      and ix: "\<forall>i<length rs. (rs ! i \<in> set kept)
            = (today env (Suc k + i) - published (rs ! i) \<le> days config * day_us
               \<and> (items config = - 1
                    \<or> int (length (acc @ [gen r]) + length [x\<leftarrow>take i rs. x \<in> set kept])
                         \<le> items config))"
      by blast
    have f1: "[x\<leftarrow>rs. x \<noteq> r \<and> x \<notin> set kept] = [x\<leftarrow>rs. x \<notin> set kept]"
      using fresh by (intro filter_cong) auto
    have f2: "[x\<leftarrow>rs. x = r \<or> x \<in> set kept] = [x\<leftarrow>rs. x \<in> set kept]"
      using fresh by (intro filter_cong) auto
    have f3: "[x\<leftarrow>take i rs. x = r \<or> x \<in> set kept] = [x\<leftarrow>take i rs. x \<in> set kept]" for i
      using fresh by (intro filter_cong) (auto dest: in_set_takeD)
    have 1: "make_items env config k (r # rs) acc deleted
          = (None, acc @ map gen (r # kept), deleted @ [x\<leftarrow>r # rs. x \<notin> set (r # kept)])"
      using a True m by (simp add: f1)
    have 2: "r # kept = [x\<leftarrow>r # rs. x \<in> set (r # kept)]"
      using sub by (simp add: f2)
    have 3: "\<forall>i<length (r # rs). ((r # rs) ! i \<in> set (r # kept))
            = (today env (k + i) - published ((r # rs) ! i) \<le> days config * day_us
               \<and> (items config = - 1
                    \<or> int (length acc + length [x\<leftarrow>take i (r # rs). x \<in> set (r # kept)])
                         \<le> items config))"
    proof (intro allI impI)
      fix i assume i: "i < length (r # rs)"
      show "((r # rs) ! i \<in> set (r # kept))
            = (today env (k + i) - published ((r # rs) ! i) \<le> days config * day_us
               \<and> (items config = - 1
                    \<or> int (length acc + length [x\<leftarrow>take i (r # rs). x \<in> set (r # kept)])
                         \<le> items config))"
      proof (cases i)
        case 0
        with True show ?thesis by simp
      next
        case (Suc j)
        with i have j: "j < length rs" by simp
        then have ne: "rs ! j \<noteq> r" using fresh by (metis nth_mem)
        from ix j have "(rs ! j \<in> set kept)
            = (today env (Suc k + j) - published (rs ! j) \<le> days config * day_us
               \<and> (items config = - 1
                    \<or> int (length (acc @ [gen r]) + length [x\<leftarrow>take j rs. x \<in> set kept])
                         \<le> items config))" by simp
        then show ?thesis using Suc ne by (simp add: f3)
      qed
    qed
    from 1 2 3 show ?thesis by blast
  next
    case False
    from Cons.IH [OF dist rng, of acc "deleted @ [r]"] obtain kept where
      m: "make_items env config (Suc k) rs acc (deleted @ [r])
          = (None, acc @ map gen kept, (deleted @ [r]) @ [x\<leftarrow>rs. x \<notin> set kept])"
      and sub: "kept = [x\<leftarrow>rs. x \<in> set kept]"
      and ix: "\<forall>i<length rs. (rs ! i \<in> set kept)
            = (today env (Suc k + i) - published (rs ! i) \<le> days config * day_us
               \<and> (items config = - 1
                    \<or> int (length acc + length [x\<leftarrow>take i rs. x \<in> set kept])
                         \<le> items config))"
      by blast
    from sub have "set kept \<subseteq> set rs" by (metis filter_is_subset)
    with fresh have nk: "r \<notin> set kept" by auto
    have 1: "make_items env config k (r # rs) acc deleted
          = (None, acc @ map gen kept, deleted @ [x\<leftarrow>r # rs. x \<notin> set kept])"
      using a False m nk by simp
    have 2: "kept = [x\<leftarrow>r # rs. x \<in> set kept]"
      using sub nk by simp
    have 3: "\<forall>i<length (r # rs). ((r # rs) ! i \<in> set kept)
            = (today env (k + i) - published ((r # rs) ! i) \<le> days config * day_us
               \<and> (items config = - 1
                    \<or> int (length acc + length [x\<leftarrow>take i (r # rs). x \<in> set kept])
                         \<le> items config))"
    proof (intro allI impI)
      fix i assume i: "i < length (r # rs)"
      show "((r # rs) ! i \<in> set kept)
            = (today env (k + i) - published ((r # rs) ! i) \<le> days config * day_us
               \<and> (items config = - 1
                    \<or> int (length acc + length [x\<leftarrow>take i (r # rs). x \<in> set kept])
                         \<le> items config))"
      proof (cases i)
        case 0
        with False nk show ?thesis by simp
      next
        case (Suc j)
        with i have j: "j < length rs" by simp
        from ix j have "(rs ! j \<in> set kept)
            = (today env (Suc k + j) - published (rs ! j) \<le> days config * day_us
               \<and> (items config = - 1
                    \<or> int (length acc + length [x\<leftarrow>take j rs. x \<in> set kept])
                         \<le> items config))" by simp
        then show ?thesis using Suc nk by simp
      qed
    qed
    from 1 2 3 show ?thesis by blast
  qed
qed

subsection \<open>The query and the commit\<close>

lemma query_file_set:
  "set (query_file rows f) = {r \<in> set rows. rss_file r = f}"
  by (simp add: query_file_def)

lemma query_file_distinct:
  "distinct (map rss_id rows) \<Longrightarrow> distinct (query_file rows f)"
  by (simp add: query_file_def distinct_map)

lemma query_file_filter:
  "query_file [r\<leftarrow>rows. P r] f = [r\<leftarrow>query_file rows f. P r]"
proof -
  have "[r\<leftarrow>[r\<leftarrow>rows. P r]. rss_file r = f] = [r\<leftarrow>[r\<leftarrow>rows. rss_file r = f]. P r]"
    by (simp add: conj_commute)
  then show ?thesis
    by (simp only: query_file_def filter_sort)
qed

lemma query_file_sorted:
  "sorted_wrt (\<lambda>a b. published a \<ge> published b) (query_file rows f)"
proof -
  have "sorted (map (\<lambda>r. - published r) (query_file rows f))"
    by (simp add: query_file_def)
  then show ?thesis by (simp add: sorted_map)
qed

text \<open>With distinct primary keys, deleting by key deletes exactly the rows given.\<close>

lemma delete_rows_distinct:
  assumes ids: "distinct (map rss_id rows)" and sub: "set dels \<subseteq> set rows"
  shows "delete_rows dels rows = [r\<leftarrow>rows. r \<notin> set dels]"
proof -
  from ids have inj: "inj_on rss_id (set rows)" by (simp add: distinct_map)
  have "(rss_id r \<in> set (map rss_id dels)) = (r \<in> set dels)" if r: "r \<in> set rows" for r
  proof
    assume "rss_id r \<in> set (map rss_id dels)"
    then obtain d where d: "d \<in> set dels" and e: "rss_id d = rss_id r" by auto
    from d sub have "d \<in> set rows" by auto
    with inj r e have "d = r" by (auto dest: inj_onD)
    with d show "r \<in> set dels" by simp
  next
    assume "r \<in> set dels"
    then show "rss_id r \<in> set (map rss_id dels)" by simp
  qed
  then show ?thesis
    unfolding delete_rows_def by (intro filter_cong) auto
qed

text \<open>
  The first half of \<open>on_process_end\<close> when every cut-off date is in range: the document
  holds the rows kept, the table loses the other rows of the file, and the rows of other
  files stay.
\<close>

lemma make_rss_in_range:
  assumes d: "days config \<noteq> - 1"
    and ids: "distinct (map rss_id (db s))"
    and rows: "rows = query_file (db s) (config_file config)"
    and range: "\<forall>k<length rows. \<bar>days config\<bar> \<le> 999999999
        \<and> 0 \<le> today env k - days config * day_us
        \<and> today env k - days config * day_us \<le> datetime_max"
  shows "\<exists>kept. make_rss env config s
        = Inr (\<lparr>rss2_title = ''FlexGet'',
                rss2_link = setdefault (rsslink config) ''http://flexget.com'',
                rss2_description = ''FlexGet generated RSS feed'',
                lastBuildDate = utcnow env,
                rss2_items = map gen kept\<rparr>,
               s\<lparr>logged := logged s
                    @ map (\<lambda>i. Trace_adding (item_title i) (config_file config)) (map gen kept),
                 db := [r\<leftarrow>db s. rss_file r \<noteq> config_file config \<or> r \<in> set kept]\<rparr>)
      \<and> kept = [r\<leftarrow>rows. r \<in> set kept]
      \<and> (\<forall>i<length rows. (rows ! i \<in> set kept)
            = (today env i - published (rows ! i) \<le> days config * day_us
               \<and> (items config = - 1
                    \<or> int (length [r\<leftarrow>take i rows. r \<in> set kept]) \<le> items config)))"
proof -
  have dist: "distinct rows"
    unfolding rows by (rule query_file_distinct [OF ids])
  from range have rng: "\<forall>i<length rows. \<bar>days config\<bar> \<le> 999999999
        \<and> 0 \<le> today env (0 + i) - days config * day_us
        \<and> today env (0 + i) - days config * day_us \<le> datetime_max" by simp
  from make_items_exact [OF d dist rng, of "[]" "[]"] obtain kept where
    m: "make_items env config 0 rows [] [] = (None, map gen kept, [r\<leftarrow>rows. r \<notin> set kept])"
    and sub: "kept = [r\<leftarrow>rows. r \<in> set kept]"
    and ix: "\<forall>i<length rows. (rows ! i \<in> set kept)
            = (today env i - published (rows ! i) \<le> days config * day_us
               \<and> (items config = - 1
                    \<or> int (length [r\<leftarrow>take i rows. r \<in> set kept]) \<le> items config))"
    by auto
  have "set [r\<leftarrow>rows. r \<notin> set kept] \<subseteq> set (db s)"
    unfolding rows by (auto simp: query_file_set)
  from delete_rows_distinct [OF ids this]
  have "delete_rows [r\<leftarrow>rows. r \<notin> set kept] (db s)
      = [r\<leftarrow>db s. r \<notin> set [r\<leftarrow>rows. r \<notin> set kept]]" .
  also have "\<dots> = [r\<leftarrow>db s. rss_file r \<noteq> config_file config \<or> r \<in> set kept]"
    unfolding rows by (intro filter_cong) (auto simp: query_file_set)
  finally have del: "delete_rows [r\<leftarrow>rows. r \<notin> set kept] (db s)
      = [r\<leftarrow>db s. rss_file r \<noteq> config_file config \<or> r \<in> set kept]" .
  have "make_rss env config s
        = Inr (\<lparr>rss2_title = ''FlexGet'',
                rss2_link = setdefault (rsslink config) ''http://flexget.com'',
                rss2_description = ''FlexGet generated RSS feed'',
                lastBuildDate = utcnow env,
                rss2_items = map gen kept\<rparr>,
               s\<lparr>logged := logged s
                    @ map (\<lambda>i. Trace_adding (item_title i) (config_file config)) (map gen kept),
                 db := [r\<leftarrow>db s. rss_file r \<noteq> config_file config \<or> r \<in> set kept]\<rparr>)"
    using m del unfolding rows by (simp add: make_rss_def Let_def)
  with sub ix show ?thesis by blast
qed

subsection \<open>The ways through \<open>on_process_end\<close>\<close>

lemma make_rss_keeps:
  assumes "make_rss env config s = Inr (rss, s1)"
  shows "fs s1 = fs s" and "written s1 = written s"
  using assms by (auto simp: make_rss_def Let_def split: prod.splits option.splits)

lemma make_rss_raises:
  assumes "make_rss env config s = Inl (x, s1)"
  shows "fs s1 = fs s" and "written s1 = written s" and "db s1 = db s"
  using assms by (auto simp: make_rss_def Let_def split: prod.splits option.splits)

lemma on_process_end_built:
  assumes run: "rss2gen env" "\<not> opt_learn opts"
    "written s (config_file (get_config_rss task_config)) = None"
    and m: "make_rss env (get_config_rss task_config) s = Inr (rss, s1)"
  shows "db (snd (on_process_end env opts task_config s)) = db s1"
    and "open_w env (expanduser env (config_file (get_config_rss task_config))) = Some x
      \<Longrightarrow> fst (on_process_end env opts task_config s) = Raised x
        \<and> fs (snd (on_process_end env opts task_config s)) = fs s
        \<and> written (snd (on_process_end env opts task_config s)) = written s"
    and "open_w env (expanduser env (config_file (get_config_rss task_config))) = None
      \<Longrightarrow> write_xml env (expanduser env (config_file (get_config_rss task_config))) rss
            (encoding (get_config_rss task_config)) = Some x
      \<Longrightarrow> fst (on_process_end env opts task_config s)
            = (if x = LookupError \<or> x = IOError then Returned else Raised x)
        \<and> fs (snd (on_process_end env opts task_config s))
            = fs s @ [Open_w (expanduser env (config_file (get_config_rss task_config)))]
        \<and> written (snd (on_process_end env opts task_config s)) = written s"
    and "open_w env (expanduser env (config_file (get_config_rss task_config))) = None
      \<Longrightarrow> write_xml env (expanduser env (config_file (get_config_rss task_config))) rss
            (encoding (get_config_rss task_config)) = None
      \<Longrightarrow> fst (on_process_end env opts task_config s) = Returned
        \<and> fs (snd (on_process_end env opts task_config s))
            = fs s @ [Open_w (expanduser env (config_file (get_config_rss task_config))),
                      Write_xml (expanduser env (config_file (get_config_rss task_config))) rss
                        (encoding (get_config_rss task_config))]
        \<and> written (snd (on_process_end env opts task_config s))
            = (written s)(config_file (get_config_rss task_config) \<mapsto> True)"
proof -
  note k = make_rss_keeps [OF m]
  show "db (snd (on_process_end env opts task_config s)) = db s1"
    using run by (simp add: on_process_end_def Let_def m split: option.splits exn.splits)
  show "open_w env (expanduser env (config_file (get_config_rss task_config))) = Some x
      \<Longrightarrow> fst (on_process_end env opts task_config s) = Raised x
        \<and> fs (snd (on_process_end env opts task_config s)) = fs s
        \<and> written (snd (on_process_end env opts task_config s)) = written s"
    using run k by (simp add: on_process_end_def Let_def m)
  show "open_w env (expanduser env (config_file (get_config_rss task_config))) = None
      \<Longrightarrow> write_xml env (expanduser env (config_file (get_config_rss task_config))) rss
            (encoding (get_config_rss task_config)) = Some x
      \<Longrightarrow> fst (on_process_end env opts task_config s)
            = (if x = LookupError \<or> x = IOError then Returned else Raised x)
        \<and> fs (snd (on_process_end env opts task_config s))
            = fs s @ [Open_w (expanduser env (config_file (get_config_rss task_config)))]
        \<and> written (snd (on_process_end env opts task_config s)) = written s"
    using run k by (cases x) (simp_all add: on_process_end_def Let_def m)
  show "open_w env (expanduser env (config_file (get_config_rss task_config))) = None
      \<Longrightarrow> write_xml env (expanduser env (config_file (get_config_rss task_config))) rss
            (encoding (get_config_rss task_config)) = None
      \<Longrightarrow> fst (on_process_end env opts task_config s) = Returned
        \<and> fs (snd (on_process_end env opts task_config s))
            = fs s @ [Open_w (expanduser env (config_file (get_config_rss task_config))),
                      Write_xml (expanduser env (config_file (get_config_rss task_config))) rss
                        (encoding (get_config_rss task_config))]
        \<and> written (snd (on_process_end env opts task_config s))
            = (written s)(config_file (get_config_rss task_config) \<mapsto> True)"
    using run k by (simp add: on_process_end_def Let_def m)
qed

lemma on_process_end_overflow:
  assumes run: "rss2gen env" "\<not> opt_learn opts"
    "written s (config_file (get_config_rss task_config)) = None"
    and m: "make_rss env (get_config_rss task_config) s = Inl (x, s1)"
  shows "on_process_end env opts task_config s = (Raised x, s1)"
  using run by (simp add: on_process_end_def Let_def m)

lemma on_process_end_skip:
  assumes "written s (config_file (get_config_rss task_config)) \<noteq> None"
  shows "fst (on_process_end env opts task_config s) = Returned"
    and "fs (snd (on_process_end env opts task_config s)) = fs s"
    and "db (snd (on_process_end env opts task_config s)) = db s"
    and "written (snd (on_process_end env opts task_config s)) = written s"
  using assms by (simp_all add: on_process_end_def Let_def)

lemmas example_defs =
  quiet_env_def unwritable_env_def no_options_def example_row_def example_state_def
  example_config_def example_rss2_def modern_env_def mixed_state_def
  get_config_rss_def setdefault_def day_us_def datetime_max_def timedelta_days_def
  datetime_sub_def query_file_def make_rss_def add_item_def delete_rows_def gen_def
  on_process_end_def Let_def

subsection \<open>The bound on the number of items\<close>

text \<open>
  Claim C3 at the failing input. The table holds three rows of the file, published at
  day 0, day 7 and day 9; the configuration is \<open>days: -1\<close>, \<open>items: 1\<close>. The row is left
  out only when the feed already holds more than \<open>items\<close> entries, so the document written
  has two entries, one more than the bound, and only the oldest row is deleted.
\<close>

theorem items_bound_keeps_one_more:
  "on_process_end quiet_env no_options (example_config (- 1) 1) example_state =
     (Returned,
      \<lparr>written = [''feed.rss'' \<mapsto> True],
       db = [example_row 2 ''b'' (7 * day_us), example_row 3 ''c'' (9 * day_us)],
       next_id = 4,
       fs = [Open_w ''feed.rss'',
             Write_xml ''feed.rss''
               (example_rss2 [gen (example_row 3 ''c'' (9 * day_us)),
                              gen (example_row 2 ''b'' (7 * day_us))])
               ''iso-8859-1''],
       logged = [Trace_adding ''c'' ''feed.rss'', Trace_adding ''b'' ''feed.rss'',
                 Verbose_writing ''feed.rss'']\<rparr>)"
  by (simp add: example_defs)

subsection \<open>Errors while writing\<close>

text \<open>
  Claim C6 at the failing input: the destination cannot be opened for writing. The call
  \<open>open(fn, 'w')\<close> stands outside the \<open>try\<close> block, so its \<open>IOError\<close> leaves
  \<open>on_process_end\<close>; nothing is logged at level critical. The rows were deleted and
  committed before, and the file is not marked as written.
\<close>

theorem open_error_propagates:
  "on_process_end unwritable_env no_options (Path ''feed.rss'') example_state =
     (Raised IOError,
      \<lparr>written = Map.empty,
       db = [example_row 2 ''b'' (7 * day_us), example_row 3 ''c'' (9 * day_us)],
       next_id = 4,
       fs = [],
       logged = [Trace_adding ''c'' ''feed.rss'', Trace_adding ''b'' ''feed.rss'']\<rparr>)"
  by (simp add: example_defs)

text \<open>
  The errors raised inside the \<open>try\<close> block are recovered: \<open>LookupError\<close> and \<open>IOError\<close>
  from \<open>write_xml\<close> are logged at level critical, the call returns, and \<open>self.written\<close> is
  unchanged.
\<close>

lemma write_error_recovered:
  assumes run: "rss2gen env" "\<not> opt_learn opts"
    "written s (config_file (get_config_rss task_config)) = None"
    and m: "make_rss env (get_config_rss task_config) s = Inr (rss, s1)"
    and opn: "open_w env (expanduser env (config_file (get_config_rss task_config))) = None"
    and wr: "write_xml env (expanduser env (config_file (get_config_rss task_config)))
       rss (encoding (get_config_rss task_config)) = Some x"
    and x: "x = LookupError \<or> x = IOError"
  shows "fst (on_process_end env opts task_config s) = Returned
    \<and> written (snd (on_process_end env opts task_config s)) = written s
    \<and> last (logged (snd (on_process_end env opts task_config s)))
        = (if x = LookupError
           then Critical_unknown_encoding (encoding (get_config_rss task_config))
           else Critical_unable_to_write
                  (expanduser env (config_file (get_config_rss task_config))))"
proof -
  from make_rss_keeps [OF m] have k: "written s1 = written s" by simp
  show ?thesis
    using run opn wr k x by (auto simp: on_process_end_def Let_def m)
qed

subsection \<open>Writing once\<close>

text \<open>
  Claim C4. When \<open>on_process_end\<close> runs for a file that is not yet marked as written (the
  feed library is present, the run is not a learning run), the loop over the rows builds
  the document, and the file can be opened and written, the call returns, the
  destination sees one file opened and one document written, and the file is marked in
  \<open>self.written\<close>. Any later call for the same file, whatever its environment, options and
  other settings, returns and leaves the destination, the table and \<open>self.written\<close> as
  they are: over the two calls exactly one document is written.
\<close>

theorem finalize_twice_one_write:
  assumes cfg: "config = get_config_rss task_config"
    and run: "rss2gen env" "\<not> opt_learn opts" "written s (config_file config) = None"
    and fn: "fn = expanduser env (config_file config)"
    and doc: "make_rss env config s = Inr (rss, s0)"
    and ok: "open_w env fn = None" "write_xml env fn rss (encoding config) = None"
    and first: "on_process_end env opts task_config s = (out1, s1)"
    and same: "config_file (get_config_rss task_config2) = config_file config"
    and second: "on_process_end env2 opts2 task_config2 s1 = (out2, s2)"
  shows "out1 = Returned
    \<and> written s1 (config_file config) = Some True
    \<and> fs s1 = fs s @ [Open_w fn, Write_xml fn rss (encoding config)]
    \<and> out2 = Returned \<and> fs s2 = fs s1 \<and> db s2 = db s1 \<and> written s2 = written s1"
proof -
  have a: "fst (on_process_end env opts task_config s) = Returned
    \<and> fs (snd (on_process_end env opts task_config s))
       = fs s @ [Open_w fn, Write_xml fn rss (encoding config)]
    \<and> written (snd (on_process_end env opts task_config s))
        = (written s)(config_file config \<mapsto> True)"
    using on_process_end_built(4) [of env opts s task_config rss s0] run ok doc
    unfolding cfg fn by simp
  with first have 1: "out1 = Returned"
    and 2: "fs s1 = fs s @ [Open_w fn, Write_xml fn rss (encoding config)]"
    and 3: "written s1 (config_file config) = Some True" by simp_all
  from 3 same have w: "written s1 (config_file (get_config_rss task_config2)) \<noteq> None"
    by simp
  from on_process_end_skip [OF w, of env2 opts2] second
  have "out2 = Returned" "fs s2 = fs s1" "db s2 = db s1" "written s2 = written s1"
    by simp_all
  with 1 2 3 show ?thesis by simp
qed

text \<open>
  The theorem at the example: the first call writes the feed of the two newest rows, the
  second call, with a destination that could not even be opened, changes nothing.
\<close>

theorem finalize_twice_one_write_witness:
  "written example_state ''feed.rss'' = None
   \<and> fst (on_process_end quiet_env no_options (Path ''feed.rss'') example_state) = Returned
   \<and> fs (snd (on_process_end quiet_env no_options (Path ''feed.rss'') example_state))
       = [Open_w ''feed.rss'',
          Write_xml ''feed.rss''
            (example_rss2 [gen (example_row 3 ''c'' (9 * day_us)),
                           gen (example_row 2 ''b'' (7 * day_us))])
            ''iso-8859-1'']
   \<and> fs (snd (on_process_end unwritable_env no_options (example_config 2 5)
        (snd (on_process_end quiet_env no_options (Path ''feed.rss'') example_state))))
       = fs (snd (on_process_end quiet_env no_options (Path ''feed.rss'') example_state))
   \<and> db (snd (on_process_end unwritable_env no_options (example_config 2 5)
        (snd (on_process_end quiet_env no_options (Path ''feed.rss'') example_state))))
       = db (snd (on_process_end quiet_env no_options (Path ''feed.rss'') example_state))"
proof -
  let ?s1 = "snd (on_process_end quiet_env no_options (Path ''feed.rss'') example_state)"
  let ?out1 = "fst (on_process_end quiet_env no_options (Path ''feed.rss'') example_state)"
  let ?R2 = "on_process_end unwritable_env no_options (example_config 2 5) ?s1"
  let ?doc = "example_rss2 [gen (example_row 3 ''c'' (9 * day_us)),
                      gen (example_row 2 ''b'' (7 * day_us))]"
  let ?s0 = "\<lparr>written = Map.empty,
       db = [example_row 2 ''b'' (7 * day_us), example_row 3 ''c'' (9 * day_us)],
       next_id = 4, fs = [],
       logged = [Trace_adding ''c'' ''feed.rss'', Trace_adding ''b'' ''feed.rss'']\<rparr>"
  have run: "rss2gen quiet_env" "\<not> opt_learn no_options"
    "written example_state (config_file (get_config_rss (Path ''feed.rss''))) = None"
    by (simp_all add: example_defs)
  have doc: "make_rss quiet_env (get_config_rss (Path ''feed.rss'')) example_state
      = Inr (?doc, ?s0)"
    by (simp add: example_defs)
  have ok: "open_w quiet_env (expanduser quiet_env (config_file (get_config_rss (Path ''feed.rss'')))) = None"
    "write_xml quiet_env (expanduser quiet_env (config_file (get_config_rss (Path ''feed.rss''))))
       ?doc (encoding (get_config_rss (Path ''feed.rss''))) = None"
    by (simp_all add: quiet_env_def)
  have same: "config_file (get_config_rss (example_config 2 5))
      = config_file (get_config_rss (Path ''feed.rss''))"
    by (simp add: example_defs)
  have cf: "config_file (get_config_rss (Path ''feed.rss'')) = ''feed.rss''"
    "encoding (get_config_rss (Path ''feed.rss'')) = ''iso-8859-1''"
    "expanduser quiet_env ''feed.rss'' = ''feed.rss''"
    "fs example_state = []"
    by (simp_all add: example_defs)
  from finalize_twice_one_write [OF refl run refl doc ok _ same, of ?out1 ?s1 unwritable_env
      no_options "fst ?R2" "snd ?R2"]
  show ?thesis using run(3) by (simp add: cf)
qed

subsection \<open>The bound on the age\<close>

text \<open>
  Claim C5 as stated, for every \<open>days\<close> other than \<open>-1\<close>, fails where the cut-off date is
  not a \<open>datetime\<close>. The clock stands in year 2013 and the table holds rows of the file
  aged 1, 7 and 10 days. With \<open>days: -3000000\<close> the age of every row exceeds \<open>days\<close>, and
  the cut-off date lies after year 9999; with \<open>days: 1000000\<close> it lies before year 1. In
  both cases the test on the age of the first row raises \<open>OverflowError\<close>, which leaves
  \<open>on_process_end\<close>: no row is deleted and no document is written.
\<close>

theorem max_age_out_of_range_raises:
  "on_process_end modern_env no_options (example_config (- 3000000) (- 1)) mixed_state
     = (Raised OverflowError, mixed_state)
   \<and> on_process_end modern_env no_options (example_config 1000000 (- 1)) mixed_state
     = (Raised OverflowError, mixed_state)"
  by (simp add: example_defs)

text \<open>
  In general: when the file has a row in the table and the cut-off date of the first row
  examined is out of range, the call raises \<open>OverflowError\<close> and leaves the state as it
  is.
\<close>

lemma cutoff_out_of_range_raises:
  assumes run: "rss2gen env" "\<not> opt_learn opts"
    "written s (config_file (get_config_rss task_config)) = None"
    and d: "days (get_config_rss task_config) \<noteq> - 1"
    and row: "r \<in> set (db s)" "rss_file r = config_file (get_config_rss task_config)"
    and out: "\<not> (\<bar>days (get_config_rss task_config)\<bar> \<le> 999999999
        \<and> 0 \<le> today env 0 - days (get_config_rss task_config) * day_us
        \<and> today env 0 - days (get_config_rss task_config) * day_us \<le> datetime_max)"
  shows "on_process_end env opts task_config s = (Raised OverflowError, s)"
proof -
  let ?c = "get_config_rss task_config"
  from row have "query_file (db s) (config_file ?c) \<noteq> []"
    using query_file_set [of "db s" "config_file ?c"] by auto
  then obtain x xs where q: "query_file (db s) (config_file ?c) = x # xs"
    by (cases "query_file (db s) (config_file ?c)") auto
  have "add_item env ?c 0 [] x = Inl OverflowError"
    using add_item_out_of_range [OF d, of env 0 "[]" x] out by simp
  then have "make_rss env ?c s = Inl (OverflowError, s)"
    by (simp add: make_rss_def q)
  from on_process_end_overflow [OF run this] show ?thesis .
qed

text \<open>
  Claim C5, for the values of \<open>days\<close> whose cut-off dates are in range. Let \<open>days\<close> be not
  \<open>-1\<close>, and let \<open>on_process_end\<close> run for a file that is not yet marked as written, on a
  table with distinct primary keys. Let \<open>rows\<close> be the rows of the file, newest first, and
  let, for each of them, \<open>days\<close> be within the range of \<open>timedelta\<close> and the clock reading
  taken when the row is examined, minus \<open>days\<close> days, be within the range of \<open>datetime\<close>.
  Then:

  \<^item> a row of the file is in the table afterwards exactly when its age, the clock reading
    taken when the row is examined minus its publication date, is at most \<open>days\<close> days,
    and \<open>items\<close> is \<open>-1\<close> or at most \<open>items\<close> of the rows before it are still in the
    table; so every row older than \<open>days\<close> days is deleted;

  \<^item> the table afterwards is the table before without the rows deleted: the rows of
    other files stay, nothing is added, the order is kept;

  \<^item> the document built has the title, link, description and build date that the code
    gives it, and its items are the rows of the file in the table afterwards, newest
    first, each with the title, description, link and publication date of its row;
    the items are ordered by publication date, descending;

  \<^item> when the file cannot be opened, the exception of \<open>open\<close> leaves the call and nothing
    is written; when it can be opened and written, the call returns, this document is
    what is written, and the file is marked as written; when \<open>write_xml\<close> raises, the
    file is opened and not marked, and the call returns for \<open>LookupError\<close> and \<open>IOError\<close>.
\<close>

theorem max_age_evicts:
  assumes cfg: "config = get_config_rss task_config"
    and run: "rss2gen env" "\<not> opt_learn opts" "written s (config_file config) = None"
    and days: "days config \<noteq> - 1"
    and ids: "distinct (map rss_id (db s))"
    and rows: "rows = sort_key (\<lambda>r. - published r) [r\<leftarrow>db s. rss_file r = config_file config]"
    and range: "\<forall>k<length rows. \<bar>days config\<bar> \<le> 999999999
        \<and> 0 \<le> today env k - days config * day_us
        \<and> today env k - days config * day_us \<le> datetime_max"
    and fn: "fn = expanduser env (config_file config)"
    and res: "on_process_end env opts task_config s = (out, s')"
    and doc: "doc =
       \<lparr>rss2_title = ''FlexGet'',
        rss2_link = (case rsslink config of None \<Rightarrow> ''http://flexget.com'' | Some l \<Rightarrow> l),
        rss2_description = ''FlexGet generated RSS feed'',
        lastBuildDate = utcnow env,
        rss2_items =
          map (\<lambda>r. \<lparr>item_title = rss_title r, item_description = rss_description r,
                     item_link = rss_link r, pubDate = published r\<rparr>)
            (sort_key (\<lambda>r. - published r) [r\<leftarrow>db s'. rss_file r = config_file config])\<rparr>"
  shows "(\<forall>k<length rows.
            (rows ! k \<in> set (db s'))
              = (today env k - published (rows ! k) \<le> days config * day_us
                 \<and> (items config = - 1
                      \<or> int (length [r\<leftarrow>take k rows. r \<in> set (db s')]) \<le> items config)))
    \<and> db s' = [r\<leftarrow>db s. rss_file r \<noteq> config_file config \<or> r \<in> set (db s')]
    \<and> sorted_wrt (\<lambda>a b. pubDate a \<ge> pubDate b) (rss2_items doc)
    \<and> (case open_w env fn of
          Some x \<Rightarrow> out = Raised x \<and> fs s' = fs s \<and> written s' = written s
        | None \<Rightarrow>
            (case write_xml env fn doc (encoding config) of
               Some x \<Rightarrow>
                 out = (if x = LookupError \<or> x = IOError then Returned else Raised x)
                 \<and> fs s' = fs s @ [Open_w fn] \<and> written s' = written s
             | None \<Rightarrow>
                 out = Returned
                 \<and> fs s' = fs s @ [Open_w fn, Write_xml fn doc (encoding config)]
                 \<and> written s' = (written s)(config_file config \<mapsto> True)))"
proof -
  let ?f = "config_file config"
  let ?item = "\<lambda>r. \<lparr>item_title = rss_title r, item_description = rss_description r,
                     item_link = rss_link r, pubDate = published r\<rparr>"
  have rq: "rows = query_file (db s) ?f"
    using rows by (simp add: query_file_def)
  have g: "gen = ?item"
    by (rule ext) (simp add: gen_def)
  from make_rss_in_range [OF days ids rq range] obtain kept s1 where
    m: "make_rss env config s
        = Inr (\<lparr>rss2_title = ''FlexGet'',
                rss2_link = setdefault (rsslink config) ''http://flexget.com'',
                rss2_description = ''FlexGet generated RSS feed'',
                lastBuildDate = utcnow env,
                rss2_items = map gen kept\<rparr>, s1)"
    and s1: "db s1 = [r\<leftarrow>db s. rss_file r \<noteq> ?f \<or> r \<in> set kept]"
    and sub: "kept = [r\<leftarrow>rows. r \<in> set kept]"
    and ix: "\<forall>i<length rows. (rows ! i \<in> set kept)
            = (today env i - published (rows ! i) \<le> days config * day_us
               \<and> (items config = - 1
                    \<or> int (length [r\<leftarrow>take i rows. r \<in> set kept]) \<le> items config))"
    by fastforce
  note b = on_process_end_built [of env opts s task_config, unfolded cfg [symmetric], OF run m]
  from b(1) res have dbs: "db s' = [r\<leftarrow>db s. rss_file r \<noteq> ?f \<or> r \<in> set kept]"
    by (simp add: s1)
  have mem: "(r \<in> set (db s')) = (r \<in> set kept)" if "r \<in> set rows" for r
    using that unfolding dbs rq by (auto simp: query_file_set)
  have q: "sort_key (\<lambda>r. - published r) [r\<leftarrow>db s'. rss_file r = ?f] = kept"
  proof -
    have "query_file (db s') ?f = [r\<leftarrow>rows. rss_file r \<noteq> ?f \<or> r \<in> set kept]"
      unfolding dbs rq by (rule query_file_filter)
    also have "\<dots> = [r\<leftarrow>rows. r \<in> set kept]"
      unfolding rq by (intro filter_cong) (auto simp: query_file_set)
    also have "\<dots> = kept" using sub by simp
    finally show ?thesis by (simp add: query_file_def)
  qed
  have d: "doc = \<lparr>rss2_title = ''FlexGet'',
                rss2_link = setdefault (rsslink config) ''http://flexget.com'',
                rss2_description = ''FlexGet generated RSS feed'',
                lastBuildDate = utcnow env,
                rss2_items = map gen kept\<rparr>"
    unfolding doc q g by (simp add: setdefault_def)
  have 1: "\<forall>k<length rows.
            (rows ! k \<in> set (db s'))
              = (today env k - published (rows ! k) \<le> days config * day_us
                 \<and> (items config = - 1
                      \<or> int (length [r\<leftarrow>take k rows. r \<in> set (db s')]) \<le> items config))"
  proof (intro allI impI)
    fix k assume k: "k < length rows"
    have "[r\<leftarrow>take k rows. r \<in> set (db s')] = [r\<leftarrow>take k rows. r \<in> set kept]"
      by (intro filter_cong) (auto dest: in_set_takeD simp: mem)
    moreover have "(rows ! k \<in> set (db s')) = (rows ! k \<in> set kept)"
      using k by (simp add: mem)
    ultimately show "(rows ! k \<in> set (db s'))
              = (today env k - published (rows ! k) \<le> days config * day_us
                 \<and> (items config = - 1
                      \<or> int (length [r\<leftarrow>take k rows. r \<in> set (db s')]) \<le> items config))"
      using ix k by simp
  qed
  have 2: "db s' = [r\<leftarrow>db s. rss_file r \<noteq> ?f \<or> r \<in> set (db s')]"
  proof -
    have "[r\<leftarrow>db s. rss_file r \<noteq> ?f \<or> r \<in> set (db s')]
        = [r\<leftarrow>db s. rss_file r \<noteq> ?f \<or> r \<in> set kept]"
      by (intro filter_cong) (auto simp: dbs)
    with dbs show ?thesis by simp
  qed
  have 3: "sorted_wrt (\<lambda>a b. pubDate a \<ge> pubDate b) (rss2_items doc)"
  proof -
    have "sorted_wrt (\<lambda>a b. published a \<ge> published b) [r\<leftarrow>rows. r \<in> set kept]"
      unfolding rq by (intro sorted_wrt_filter query_file_sorted)
    with sub have "sorted_wrt (\<lambda>a b. published a \<ge> published b) kept" by simp
    then show ?thesis by (simp add: d sorted_wrt_map gen_def)
  qed
  have 4: "case open_w env fn of
          Some x \<Rightarrow> out = Raised x \<and> fs s' = fs s \<and> written s' = written s
        | None \<Rightarrow>
            (case write_xml env fn doc (encoding config) of
               Some x \<Rightarrow>
                 out = (if x = LookupError \<or> x = IOError then Returned else Raised x)
                 \<and> fs s' = fs s @ [Open_w fn] \<and> written s' = written s
             | None \<Rightarrow>
                 out = Returned
                 \<and> fs s' = fs s @ [Open_w fn, Write_xml fn doc (encoding config)]
                 \<and> written s' = (written s)(config_file config \<mapsto> True))"
  proof (cases "open_w env fn")
    case (Some x)
    with b(2) [of x] res show ?thesis unfolding fn by simp
  next
    case None
    show ?thesis
    proof (cases "write_xml env fn doc (encoding config)")
      case (Some x)
      with b(3) [of x] None res show ?thesis unfolding fn d by simp
    next
      case wn: None
      with b(4) None res show ?thesis unfolding fn d by simp
    qed
  qed
  from 1 2 3 4 show ?thesis by simp
qed

text \<open>
  The theorem at an example: the clock in year 2013, \<open>days\<close> at its default of 7, rows of
  the file aged 10, 1 and 7 days and a row of another file aged 20 days. The row aged 10
  days is deleted; the row aged exactly 7 days stays, and so does the row of the other
  file; the document written holds the rows aged 1 and 7 days, in this order.
\<close>

theorem max_age_evicts_witness:
  "days (get_config_rss (Path ''feed.rss'')) = 7
   \<and> items (get_config_rss (Path ''feed.rss'')) = - 1
   \<and> distinct (map rss_id (db mixed_state))
   \<and> sort_key (\<lambda>r. - published r) [r\<leftarrow>db mixed_state. rss_file r = ''feed.rss'']
       = [example_row 3 ''c'' (734999 * day_us), example_row 4 ''b'' (734993 * day_us),
          example_row 1 ''a'' (734990 * day_us)]
   \<and> today modern_env 2 - published (example_row 1 ''a'' (734990 * day_us)) = 10 * day_us
   \<and> example_row 1 ''a'' (734990 * day_us)
       \<notin> set (db (snd (on_process_end modern_env no_options (Path ''feed.rss'') mixed_state)))
   \<and> today modern_env 1 - published (example_row 4 ''b'' (734993 * day_us)) = 7 * day_us
   \<and> example_row 4 ''b'' (734993 * day_us)
       \<in> set (db (snd (on_process_end modern_env no_options (Path ''feed.rss'') mixed_state)))
   \<and> db (snd (on_process_end modern_env no_options (Path ''feed.rss'') mixed_state))
       = [(example_row 2 ''x'' (734980 * day_us))\<lparr>rss_file := ''other.rss''\<rparr>,
          example_row 3 ''c'' (734999 * day_us), example_row 4 ''b'' (734993 * day_us)]
   \<and> fst (on_process_end modern_env no_options (Path ''feed.rss'') mixed_state) = Returned
   \<and> fs (snd (on_process_end modern_env no_options (Path ''feed.rss'') mixed_state))
       = [Open_w ''feed.rss'',
          Write_xml ''feed.rss''
            \<lparr>rss2_title = ''FlexGet'', rss2_link = ''http://flexget.com'',
             rss2_description = ''FlexGet generated RSS feed'',
             lastBuildDate = 735000 * day_us,
             rss2_items =
               [\<lparr>item_title = ''c'', item_description = ''c'', item_link = None,
                 pubDate = 734999 * day_us\<rparr>,
                \<lparr>item_title = ''b'', item_description = ''b'', item_link = None,
                 pubDate = 734993 * day_us\<rparr>]\<rparr>
            ''iso-8859-1'']"
proof -
  let ?R = "on_process_end modern_env no_options (Path ''feed.rss'') mixed_state"
  let ?c = "get_config_rss (Path ''feed.rss'')"
  let ?rows = "[example_row 3 ''c'' (734999 * day_us), example_row 4 ''b'' (734993 * day_us),
          example_row 1 ''a'' (734990 * day_us)]"
  let ?doc = "\<lparr>rss2_title = ''FlexGet'', rss2_link = ''http://flexget.com'',
             rss2_description = ''FlexGet generated RSS feed'',
             lastBuildDate = 735000 * day_us,
             rss2_items =
               [\<lparr>item_title = ''c'', item_description = ''c'', item_link = None,
                 pubDate = 734999 * day_us\<rparr>,
                \<lparr>item_title = ''b'', item_description = ''b'', item_link = None,
                 pubDate = 734993 * day_us\<rparr>]\<rparr>"
  have run: "rss2gen modern_env" "\<not> opt_learn no_options"
    "written mixed_state (config_file ?c) = None"
    by (simp_all add: example_defs)
  have d: "days ?c \<noteq> - 1" "days ?c = 7" "items ?c = - 1"
    by (simp_all add: example_defs)
  have ids: "distinct (map rss_id (db mixed_state))"
    by (simp add: example_defs)
  have cf: "config_file ?c = ''feed.rss''" "encoding ?c = ''iso-8859-1''"
    "rsslink ?c = None" "expanduser modern_env ''feed.rss'' = ''feed.rss''"
    "open_w modern_env ''feed.rss'' = None" "write_xml modern_env ''feed.rss'' = (\<lambda>rss enc. None)"
    "utcnow modern_env = 735000 * day_us" "fs mixed_state = []"
    by (simp_all add: example_defs)
  have q: "sort_key (\<lambda>r. - published r) [r\<leftarrow>db mixed_state. rss_file r = ''feed.rss'']
      = ?rows"
    by (simp add: example_defs)
  have range: "\<forall>k<length (sort_key (\<lambda>r. - published r)
                    [r\<leftarrow>db mixed_state. rss_file r = config_file ?c]).
      \<bar>days ?c\<bar> \<le> 999999999
        \<and> 0 \<le> today modern_env k - days ?c * day_us
        \<and> today modern_env k - days ?c * day_us \<le> datetime_max"
    by (simp add: example_defs)
  have res: "?R = (fst ?R, snd ?R)" by simp
  have ages: "today modern_env 2 - published (example_row 1 ''a'' (734990 * day_us)) = 10 * day_us"
    "today modern_env 1 - published (example_row 4 ''b'' (734993 * day_us)) = 7 * day_us"
    by (simp_all add: example_defs)
  note th = max_age_evicts [where task_config = "Path ''feed.rss''" and env = modern_env
      and opts = no_options and s = mixed_state, OF refl run d(1) ids refl range refl res refl]
  from th have ix: "\<forall>k<3. (?rows ! k \<in> set (db (snd ?R)))
      = (today modern_env k - published (?rows ! k) \<le> 7 * day_us)"
    by (simp add: cf q d)
  from ix have gone: "example_row 1 ''a'' (734990 * day_us) \<notin> set (db (snd ?R))"
    using ages(1) by (auto dest: spec [of _ 2] simp: day_us_def)
  from ix have stays: "example_row 4 ''b'' (734993 * day_us) \<in> set (db (snd ?R))"
    using ages(2) by (auto dest: spec [of _ 1])
  from ix have stays3: "example_row 3 ''c'' (734999 * day_us) \<in> set (db (snd ?R))"
    by (auto dest: spec [of _ 0] simp: example_defs)
  from th have sub: "db (snd ?R)
      = [r\<leftarrow>db mixed_state. rss_file r \<noteq> ''feed.rss'' \<or> r \<in> set (db (snd ?R))]"
    by (simp add: cf)
  have other: "rss_file ((example_row 2 ''x'' (734980 * day_us))\<lparr>rss_file := ''other.rss''\<rparr>)
      \<noteq> ''feed.rss''" by simp
  have dbm: "db mixed_state
       = [example_row 1 ''a'' (734990 * day_us),
          (example_row 2 ''x'' (734980 * day_us))\<lparr>rss_file := ''other.rss''\<rparr>,
          example_row 3 ''c'' (734999 * day_us), example_row 4 ''b'' (734993 * day_us)]"
    by (simp add: mixed_state_def)
  have f: "rss_file (example_row n t p) = ''feed.rss''" for n t p
    by (simp add: example_row_def)
  have dbs: "db (snd ?R)
       = [(example_row 2 ''x'' (734980 * day_us))\<lparr>rss_file := ''other.rss''\<rparr>,
          example_row 3 ''c'' (734999 * day_us), example_row 4 ''b'' (734993 * day_us)]"
    apply (subst sub)
    using gone stays stays3 by (simp add: dbm f)
  have items: "map (\<lambda>r. \<lparr>item_title = rss_title r, item_description = rss_description r,
                     item_link = rss_link r, pubDate = published r\<rparr>)
            (sort_key (\<lambda>r. - published r) [r\<leftarrow>db (snd ?R). rss_file r = ''feed.rss''])
       = [\<lparr>item_title = ''c'', item_description = ''c'', item_link = None,
                 pubDate = 734999 * day_us\<rparr>,
                \<lparr>item_title = ''b'', item_description = ''b'', item_link = None,
                 pubDate = 734993 * day_us\<rparr>]"
    unfolding dbs by (simp add: example_row_def day_us_def)
  from th have w: "fst ?R = Returned \<and> fs (snd ?R) = [Open_w ''feed.rss'', Write_xml ''feed.rss'' ?doc ''iso-8859-1'']"
    by (simp add: cf items)
  from d q ids ages gone stays dbs w show ?thesis by simp
qed

subsection \<open>The publication date of new rows\<close>

lemma save_entries_new:
  "\<exists>new. db (snd (save_entries env config es s)) = db s @ new
     \<and> (\<forall>r\<in>set new. published r = schema_load_time env)"
proof (induction es arbitrary: s)
  case Nil
  show ?case by simp
next
  case (Cons e es)
  show ?case
  proof (cases "entry_render env e (title_template config)")
    case (Inl x)
    then show ?thesis by simp
  next
    case (Inr t)
    obtain d lg where dl: "describe env config e = (d, lg)"
      by (cases "describe env config e")
    let ?row = "\<lparr>rss_id = next_id s, rss_title = t, rss_description = d,
                 rss_link = select_link e (link config), rss_rsslink = None,
                 rss_file = config_file config, published = schema_load_time env\<rparr>"
    let ?s1 = "s\<lparr>db := db s @ [?row], next_id := Suc (next_id s),
                  logged := logged s @ lg @ [Debug_saving (title e)]\<rparr>"
    from Cons [of ?s1] obtain new where
      n: "db (snd (save_entries env config es ?s1)) = db ?s1 @ new"
      and p: "\<forall>r\<in>set new. published r = schema_load_time env" by blast
    have "db (snd (save_entries env config (e # es) s)) = db s @ (?row # new)"
      using n by (simp add: Inr dl)
    moreover have "\<forall>r\<in>set (?row # new). published r = schema_load_time env"
      using p by simp
    ultimately show ?thesis by blast
  qed
qed

lemma on_task_exit_new:
  assumes "r \<in> set (db (snd (on_task_exit env opts task_config t s))) - set (db s)"
  shows "published r = schema_load_time env"
proof -
  let ?c = "get_config_rss task_config"
  let ?s1 = "s\<lparr>db := filter (\<lambda>item. rss_file item \<noteq> config_file ?c) (db s),
                logged := logged s @ [Debug_disabling_history]\<rparr>"
  have a: "r \<in> set (db (snd (save_entries env ?c es s0))) \<Longrightarrow> set (db s0) \<subseteq> set (db s)
      \<Longrightarrow> r \<notin> set (db s) \<Longrightarrow> published r = schema_load_time env" for es s0
    using save_entries_new [of env ?c es s0] by auto
  show ?thesis
  proof (cases "rss2gen env")
    case False
    with assms show ?thesis by (simp add: on_task_exit_def)
  next
    case gen: True
    show ?thesis
    proof (cases "opt_test opts")
      case True
      with gen assms show ?thesis by (simp add: on_task_exit_def Let_def)
    next
      case test: False
      show ?thesis
      proof (cases "history ?c")
        case True
        with gen test assms show ?thesis
          using a [of "accepted t" s] by (simp add: on_task_exit_def Let_def)
      next
        case False
        with gen test assms show ?thesis
          using a [of "accepted t" ?s1] by (simp add: on_task_exit_def Let_def)
      qed
    qed
  qed
qed

text \<open>
  Claim C10. \<open>on_task_exit\<close> never assigns \<open>published\<close>, so every row it inserts gets the
  column default, the clock reading taken once when the module defined the table class,
  not the time of the insertion. Two rows inserted by any two calls of one process (one
  reading \<open>schema_load_time\<close>) therefore have the same publication date, and the order
  \<open>published DESC\<close> of the query holds for the two rows in either order: it says nothing
  about which was inserted first.
\<close>

theorem published_is_schema_load_time:
  assumes "on_task_exit env1 opts1 task_config1 t1 s1 = (out1, s1')"
    and "on_task_exit env2 opts2 task_config2 t2 s2 = (out2, s2')"
    and "schema_load_time env2 = schema_load_time env1"
    and "r1 \<in> set (db s1') - set (db s1)"
    and "r2 \<in> set (db s2') - set (db s2)"
  shows "published r1 = schema_load_time env1 \<and> published r2 = published r1
    \<and> sorted_wrt (\<lambda>a b. published a \<ge> published b) [r1, r2]
    \<and> sorted_wrt (\<lambda>a b. published a \<ge> published b) [r2, r1]"
proof -
  have "published r1 = schema_load_time env1"
    using on_task_exit_new [of r1 env1 opts1 task_config1 t1 s1] assms(1,4) by simp
  moreover have "published r2 = schema_load_time env2"
    using on_task_exit_new [of r2 env2 opts2 task_config2 t2 s2] assms(2,5) by simp
  ultimately show ?thesis using assms(3) by simp
qed

lemmas exit_defs =
  quiet_env_def no_options_def example_entry_def example_task_def empty_state_def
  title_fails_env_def description_fails_env_def second_entry_def two_task_def
  second_title_fails_env_def
  get_config_rss_def setdefault_def on_task_exit_def accepted_def describe_def entry_get_def
  Let_def

text \<open>
  The theorem at an example: two calls that insert one row each, the second at a later
  time; both rows are published at the time the schema was loaded.
\<close>

theorem published_is_schema_load_time_witness:
  "on_task_exit quiet_env no_options (Path ''feed.rss'') example_task empty_state
     = (Returned,
        \<lparr>written = Map.empty,
         db = [\<lparr>rss_id = 1, rss_title = ''show'', rss_description = ''show'',
                rss_link = Some ''http://x/show'', rss_rsslink = None,
                rss_file = ''feed.rss'', published = 0\<rparr>],
         next_id = 2, fs = [], logged = [Debug_saving ''show'']\<rparr>)
   \<and> on_task_exit (quiet_env\<lparr>utcnow := 11 * day_us\<rparr>) no_options (Path ''other.rss'')
        example_task empty_state
     = (Returned,
        \<lparr>written = Map.empty,
         db = [\<lparr>rss_id = 1, rss_title = ''show'', rss_description = ''show'',
                rss_link = Some ''http://x/show'', rss_rsslink = None,
                rss_file = ''other.rss'', published = 0\<rparr>],
         next_id = 2, fs = [], logged = [Debug_saving ''show'']\<rparr>)
   \<and> published \<lparr>rss_id = 1, rss_title = ''show'', rss_description = ''show'',
                rss_link = Some ''http://x/show'', rss_rsslink = None,
                rss_file = ''other.rss'', published = 0\<rparr>
     = published \<lparr>rss_id = 1, rss_title = ''show'', rss_description = ''show'',
                rss_link = Some ''http://x/show'', rss_rsslink = None,
                rss_file = ''feed.rss'', published = 0\<rparr>"
proof -
  let ?r1 = "\<lparr>rss_id = 1, rss_title = ''show'', rss_description = ''show'',
                rss_link = Some ''http://x/show'', rss_rsslink = None,
                rss_file = ''feed.rss'', published = 0\<rparr>"
  let ?r2 = "\<lparr>rss_id = 1, rss_title = ''show'', rss_description = ''show'',
                rss_link = Some ''http://x/show'', rss_rsslink = None,
                rss_file = ''other.rss'', published = 0\<rparr>"
  let ?s1 = "\<lparr>written = Map.empty, db = [?r1],
         next_id = 2, fs = [], logged = [Debug_saving ''show'']\<rparr>"
  let ?s2 = "\<lparr>written = Map.empty, db = [?r2],
         next_id = 2, fs = [], logged = [Debug_saving ''show'']\<rparr>"
  have c1: "on_task_exit quiet_env no_options (Path ''feed.rss'') example_task empty_state
     = (Returned, ?s1)"
    by (simp add: exit_defs)
  have c2: "on_task_exit (quiet_env\<lparr>utcnow := 11 * day_us\<rparr>) no_options (Path ''other.rss'')
        example_task empty_state = (Returned, ?s2)"
    by (simp add: exit_defs)
  have l: "schema_load_time (quiet_env\<lparr>utcnow := 11 * day_us\<rparr>) = schema_load_time quiet_env"
    by simp
  have m1: "?r1 \<in> set (db ?s1) - set (db empty_state)"
    by (simp add: empty_state_def)
  have m2: "?r2 \<in> set (db ?s2) - set (db empty_state)"
    by (simp add: empty_state_def)
  from published_is_schema_load_time [OF c1 c2 l m1 m2] c1 c2
  show ?thesis by simp
qed

subsection \<open>Errors while rendering\<close>






end
